theory Spec2Isabelle
  imports
    Main
    "HOL-Library.AList"
    "HOL-Library.Char_ord"
    "HOL-Library.List_Lexorder"
    "HOL-Library.Product_Lexorder"
begin

section \<open>Python values used by the mirror\<close>

text \<open>
  A Python \<open>str\<close> is a \<open>string\<close>: a list of code points below 256. The content of
  a file is a \<open>string\<close> of bytes. A \<open>dict\<close> is an association list with distinct keys,
  in insertion order: \<open>map_of\<close> reads it and \<open>AList.update\<close> writes it (an existing key
  keeps its place, a new key goes to the end), as Python does.
  Every exception the modelled code can raise is a value of \<open>py_error\<close>.
\<close>

datatype py_error =
  InvalidVersion | ValueError | IndexError | IsADirectoryError
  | YAMLError | AttributeError | ChunkedEncodingError

definition is_digit :: "char \<Rightarrow> bool" where
  "is_digit c = (48 \<le> (of_char c :: nat) \<and> (of_char c :: nat) \<le> 57)"

definition digit_val :: "char \<Rightarrow> nat" where
  "digit_val c = of_char c - 48"

definition digit_char :: "nat \<Rightarrow> char" where
  "digit_char n = char_of (48 + n)"

text \<open>
  \<open>str.isspace\<close> on one code point below 256; this is also what \<open>\s\<close> matches in a
  regular expression.
\<close>

definition py_isspace :: "char \<Rightarrow> bool" where
  "py_isspace c = ((of_char c :: nat) \<in> {9, 10, 11, 12, 13, 28, 29, 30, 31, 32, 133, 160})"

definition ascii_lower :: "char \<Rightarrow> char" where
  "ascii_lower c =
     (if 65 \<le> (of_char c :: nat) \<and> (of_char c :: nat) \<le> 90 then char_of (of_char c + (32::nat)) else c)"

text \<open>\<open>s.split(c)\<close>: always at least one part; \<open>''''.split('.')\<close> is \<open>['''']\<close>.\<close>

fun split_on :: "char \<Rightarrow> string \<Rightarrow> string list" where
  "split_on c [] = [[]]"
| "split_on c (x # xs) =
     (if x = c then [] # split_on c xs
      else (case split_on c xs of [] \<Rightarrow> [[x]] | w # ws \<Rightarrow> (x # w) # ws))"

text \<open>\<open>sep.join(parts)\<close>.\<close>

fun join :: "string \<Rightarrow> string list \<Rightarrow> string" where
  "join sep [] = []"
| "join sep [p] = p"
| "join sep (p # q # ps) = p @ sep @ join sep (q # ps)"

text \<open>\<open>s.rstrip('/')\<close>\<close>

definition rstrip_slash :: "string \<Rightarrow> string" where
  "rstrip_slash s = rev (dropWhile (\<lambda>c. c = CHR ''/'') (rev s))"

subsection \<open>Conversion between \<open>int\<close> and \<open>str\<close>\<close>

text \<open>
  CPython (3.11 and later, which \<open>tasks.py\<close> requires) refuses to convert a decimal string
  of more than 4300 digits: \<open>int\<close> raises \<open>ValueError\<close>.
\<close>

definition max_str_digits :: nat where
  "max_str_digits = 4300"

definition nat_of_digits :: "string \<Rightarrow> nat" where
  "nat_of_digits ds = foldl (\<lambda>a c. 10 * a + digit_val c) 0 ds"

text \<open>
  The body of an integer literal: digits, with single underscores allowed between two
  digits only. The flag says whether the previous character was a digit.
\<close>

fun digits_underscores :: "bool \<Rightarrow> string \<Rightarrow> bool" where
  "digits_underscores prev [] = prev"
| "digits_underscores prev (c # cs) =
     (if is_digit c then digits_underscores True cs
      else if c = CHR ''_'' \<and> prev then digits_underscores False cs
      else False)"

text \<open>
  The whitespace that \<open>int\<close> skips at both ends: below 127 the six characters of C's
  \<open>isspace\<close> (the separators 28 to 31 are not among them), above it the Unicode spaces.
\<close>

definition int_space :: "char \<Rightarrow> bool" where
  "int_space c = ((of_char c :: nat) \<in> {9, 10, 11, 12, 13, 32, 133, 160})"

definition int_strip :: "string \<Rightarrow> string" where
  "int_strip s = rev (dropWhile int_space (rev (dropWhile int_space s)))"

text \<open>
  \<open>int(s)\<close> for a \<open>str\<close>: surrounding whitespace is dropped, one sign is allowed, then the
  body. \<open>None\<close> is \<open>ValueError\<close>.
\<close>

definition py_int :: "string \<Rightarrow> int option" where
  "py_int s =
     (let t = int_strip s;
          neg = (t \<noteq> [] \<and> hd t = CHR ''-'');
          body = (if t \<noteq> [] \<and> (hd t = CHR ''-'' \<or> hd t = CHR ''+'') then tl t else t);
          ds = filter is_digit body
      in if digits_underscores False body \<and> length ds \<le> max_str_digits
         then Some (if neg then - int (nat_of_digits ds) else int (nat_of_digits ds))
         else None)"

text \<open>\<open>str(n)\<close> for an \<open>int\<close>: decimal, no leading zero, a minus sign when negative.\<close>

fun dec_digits :: "nat \<Rightarrow> string" where
  "dec_digits n = (if n < 10 then [digit_char n] else dec_digits (n div 10) @ [digit_char (n mod 10)])"

declare dec_digits.simps [simp del]

definition py_str :: "int \<Rightarrow> string" where
  "py_str i = (if i < 0 then CHR ''-'' # dec_digits (nat (- i)) else dec_digits (nat i))"

section \<open>Versions: \<open>packaging.version\<close>\<close>

text \<open>
  \<open>parse_version_safe\<close> calls \<open>version.parse\<close> and \<open>Version\<close> of the third-party library
  \<open>packaging\<close> (release 22 or later, where both are the same constructor and raise
  \<open>InvalidVersion\<close>). The library is modelled from its source: the anchored,
  case-insensitive pattern \<open>VERSION_PATTERN\<close> of PEP 440, the fields of \<open>Version\<close> and the
  comparison key \<open>_cmpkey\<close>.

  The pattern is
  \<^verbatim>\<open>\s* v? (epoch !)? release pre? post? dev? (+ local)? \s*\<close>
  and it is matched here from left to right without backtracking. This finds the same
  groups as the regular expression: a digit run, a word and a separator each have to be
  taken as long as possible, since what may follow them cannot start with the characters
  they are made of.
\<close>

record version =
  epoch :: nat
  release :: "nat list"
  pre :: "(string \<times> nat) option"
  post :: "nat option"
  dev :: "nat option"
  local_segs :: "(nat + string) list option"

definition is_sep :: "char \<Rightarrow> bool" where
  "is_sep c = (c = CHR ''-'' \<or> c = CHR ''_'' \<or> c = CHR ''.'')"

definition is_alnum :: "char \<Rightarrow> bool" where
  "is_alnum c = (is_digit c \<or> (97 \<le> (of_char c :: nat) \<and> (of_char c :: nat) \<le> 122))"

text \<open>\<open>[-_.]?\<close>\<close>

definition opt_sep :: "string \<Rightarrow> string" where
  "opt_sep s = (case s of [] \<Rightarrow> [] | c # r \<Rightarrow> if is_sep c then r else s)"

fun strip_prefix :: "string \<Rightarrow> string \<Rightarrow> string option" where
  "strip_prefix [] s = Some s"
| "strip_prefix (p # ps) [] = None"
| "strip_prefix (p # ps) (c # s) = (if p = c then strip_prefix ps s else None)"

text \<open>An alternation of words, \<open>alpha|a|beta|...\<close>: the first word that is a prefix.\<close>

fun first_word :: "string list \<Rightarrow> string \<Rightarrow> (string \<times> string) option" where
  "first_word [] s = None"
| "first_word (w # ws) s =
     (case strip_prefix w s of Some r \<Rightarrow> Some (w, r) | None \<Rightarrow> first_word ws s)"

text \<open>\<open>([0-9]+)?\<close>\<close>

definition opt_number :: "string \<Rightarrow> string option \<times> string" where
  "opt_number s =
     (let ds = takeWhile is_digit s
      in (if ds = [] then None else Some ds, dropWhile is_digit s))"

text \<open>
  \<open>([-_.]? (w1|w2|...) [-_.]? ([0-9]+)?)?\<close>: the shape of the pre, post and dev groups.
  The result is the word and the digits, when the group is there, and the rest of the input.
\<close>

definition letter_group :: "string list \<Rightarrow> string \<Rightarrow> (string \<times> string option) option \<times> string" where
  "letter_group ws s =
     (case first_word ws (opt_sep s) of
        None \<Rightarrow> (None, s)
      | Some (w, r) \<Rightarrow> (let (n, r') = opt_number (opt_sep r) in (Some (w, n), r')))"

text \<open>The post group has one more form, tried first: \<open>-N\<close>.\<close>

definition post_group :: "string \<Rightarrow> (string \<times> string option) option \<times> string" where
  "post_group s =
     (case s of
        c # d # r \<Rightarrow>
          if c = CHR ''-'' \<and> is_digit d
          then (Some (''post'', Some (takeWhile is_digit (d # r))), dropWhile is_digit (d # r))
          else letter_group [''post'', ''rev'', ''r''] s
      | _ \<Rightarrow> letter_group [''post'', ''rev'', ''r''] s)"

text \<open>
  \<open>[0-9]+(\.[0-9]+)*\<close> after its first digit: \<open>cur\<close> is the component read so far. A dot
  belongs to the release only when a digit follows it.
\<close>

fun release_segs :: "string \<Rightarrow> string \<Rightarrow> string list \<times> string" where
  "release_segs cur [] = ([cur], [])"
| "release_segs cur (c # s) =
     (if is_digit c then release_segs (cur @ [c]) s
      else if c = CHR ''.'' \<and> (case s of [] \<Rightarrow> False | d # _ \<Rightarrow> is_digit d)
      then (case release_segs [] s of (segs, r) \<Rightarrow> (cur # segs, r))
      else ([cur], c # s))"

text \<open>\<open>[a-z0-9]+([-_.][a-z0-9]+)*\<close> after its first character, in the same way.\<close>

fun local_parts :: "string \<Rightarrow> string \<Rightarrow> string list \<times> string" where
  "local_parts cur [] = ([cur], [])"
| "local_parts cur (c # s) =
     (if is_alnum c then local_parts (cur @ [c]) s
      else if is_sep c \<and> (case s of [] \<Rightarrow> False | d # _ \<Rightarrow> is_alnum d)
      then (case local_parts [] s of (segs, r) \<Rightarrow> (cur # segs, r))
      else ([cur], c # s))"

text \<open>The groups of a match, still as text.\<close>

record version_match =
  m_epoch :: "string option"
  m_release :: "string list"
  m_pre :: "(string \<times> string option) option"
  m_post :: "(string \<times> string option) option"
  m_dev :: "(string \<times> string option) option"
  m_local :: "string list option"

text \<open>\<open>\s* v?\<close> at the start.\<close>

definition skip_space_v :: "string \<Rightarrow> string" where
  "skip_space_v s =
     (case dropWhile py_isspace s of [] \<Rightarrow> [] | c # r \<Rightarrow> if c = CHR ''v'' then r else c # r)"

text \<open>\<open>(([0-9]+)!)?\<close>\<close>

definition epoch_group :: "string \<Rightarrow> string option \<times> string" where
  "epoch_group s =
     (case dropWhile is_digit s of
        [] \<Rightarrow> (None, s)
      | c # r \<Rightarrow> if c = CHR ''!'' \<and> takeWhile is_digit s \<noteq> [] then (Some (takeWhile is_digit s), r)
                 else (None, s))"

text \<open>\<open>[0-9]+(\.[0-9]+)*\<close>, which is not optional.\<close>

definition release_group :: "string \<Rightarrow> (string list \<times> string) option" where
  "release_group s =
     (case s of [] \<Rightarrow> None | d # r \<Rightarrow> if is_digit d then Some (release_segs [d] r) else None)"

text \<open>\<open>(\+ local)?\<close>: after a plus sign the local version has to follow.\<close>

definition local_group :: "string \<Rightarrow> (string list option \<times> string) option" where
  "local_group s =
     (case s of
        [] \<Rightarrow> Some (None, [])
      | c # r \<Rightarrow>
          if c = CHR ''+'' then
            (case r of
               [] \<Rightarrow> None
             | d # r' \<Rightarrow> if is_alnum d
                 then (case local_parts [d] r' of (segs, rest) \<Rightarrow> Some (Some segs, rest))
                 else None)
          else Some (None, s))"

definition match_version :: "string \<Rightarrow> version_match option" where
  "match_version v =
     (case epoch_group (skip_space_v (map ascii_lower v)) of (ep, s2) \<Rightarrow>
      (case release_group s2 of
         None \<Rightarrow> None
       | Some (rel, s3) \<Rightarrow>
          (case letter_group [''alpha'', ''a'', ''beta'', ''b'', ''preview'', ''pre'', ''c'', ''rc''] s3 of (p, s4) \<Rightarrow>
           (case post_group s4 of (po, s5) \<Rightarrow>
            (case letter_group [''dev''] s5 of (dv, s6) \<Rightarrow>
             (case local_group s6 of
                None \<Rightarrow> None
              | Some (lc, s7) \<Rightarrow>
                  if list_all py_isspace s7
                  then Some \<lparr>m_epoch = ep, m_release = rel, m_pre = p, m_post = po, m_dev = dv,
                             m_local = lc\<rparr>
                  else None))))))"

text \<open>\<open>int(group)\<close> on a run of digits: only the length limit can fail.\<close>

definition int_of_digits :: "string \<Rightarrow> py_error + nat" where
  "int_of_digits ds = (if length ds \<le> max_str_digits then Inr (nat_of_digits ds) else Inl ValueError)"

fun ints_of_digits :: "string list \<Rightarrow> py_error + nat list" where
  "ints_of_digits [] = Inr []"
| "ints_of_digits (d # ds) =
     (case int_of_digits d of
        Inl e \<Rightarrow> Inl e
      | Inr n \<Rightarrow> (case ints_of_digits ds of Inl e \<Rightarrow> Inl e | Inr ns \<Rightarrow> Inr (n # ns)))"

text \<open>
  \<open>_parse_letter_version\<close>: the spellings of a word are normalised and a missing number
  is 0.
\<close>

definition normal_letter :: "string \<Rightarrow> string" where
  "normal_letter w =
     (if w = ''alpha'' then ''a''
      else if w = ''beta'' then ''b''
      else if w \<in> set [''c'', ''pre'', ''preview''] then ''rc''
      else if w \<in> set [''rev'', ''r''] then ''post''
      else w)"

definition parse_letter_version :: "(string \<times> string option) option \<Rightarrow> py_error + (string \<times> nat) option" where
  "parse_letter_version g =
     (case g of
        None \<Rightarrow> Inr None
      | Some (w, None) \<Rightarrow> Inr (Some (normal_letter w, 0))
      | Some (w, Some ds) \<Rightarrow>
          (case int_of_digits ds of Inl e \<Rightarrow> Inl e | Inr n \<Rightarrow> Inr (Some (normal_letter w, n))))"

text \<open>\<open>_parse_local_version\<close>: a part made of digits is a number, any other is text.\<close>

fun parse_local_version :: "string list \<Rightarrow> py_error + (nat + string) list" where
  "parse_local_version [] = Inr []"
| "parse_local_version (p # ps) =
     (case (if list_all is_digit p then map_sum id Inl (int_of_digits p) else Inr (Inr p)) of
        Inl e \<Rightarrow> Inl e
      | Inr x \<Rightarrow> (case parse_local_version ps of Inl e \<Rightarrow> Inl e | Inr xs \<Rightarrow> Inr (x # xs)))"

text \<open>\<open>Version(v)\<close>, the constructor: \<open>InvalidVersion\<close> when the pattern does not match.\<close>

definition Version :: "string \<Rightarrow> py_error + version" where
  "Version v =
     (case match_version v of
        None \<Rightarrow> Inl InvalidVersion
      | Some m \<Rightarrow>
         (case (case m_epoch m of None \<Rightarrow> Inr 0 | Some ds \<Rightarrow> int_of_digits ds) of Inl e \<Rightarrow> Inl e | Inr ep \<Rightarrow>
          (case ints_of_digits (m_release m) of Inl e \<Rightarrow> Inl e | Inr rel \<Rightarrow>
           (case parse_letter_version (m_pre m) of Inl e \<Rightarrow> Inl e | Inr p \<Rightarrow>
            (case parse_letter_version (m_post m) of Inl e \<Rightarrow> Inl e | Inr po \<Rightarrow>
             (case parse_letter_version (m_dev m) of Inl e \<Rightarrow> Inl e | Inr dv \<Rightarrow>
              (case (case m_local m of None \<Rightarrow> Inr None
                     | Some ps \<Rightarrow> map_sum id Some (parse_local_version ps)) of Inl e \<Rightarrow> Inl e | Inr lc \<Rightarrow>
                 Inr \<lparr>epoch = ep, release = rel, pre = p, post = map_option snd po,
                      dev = map_option snd dv, local_segs = lc\<rparr>)))))))"

text \<open>
  \<open>Version._key\<close>, computed by \<open>_cmpkey\<close>: versions are compared by comparing these tuples.
  Trailing zeros of the release are dropped. \<open>NegativeInfinity\<close> and \<open>Infinity\<close> are
  written as a leading tag that is smaller, or greater, than the tag of a proper value:
  \<^item> pre: \<open>(0, _, _)\<close> is \<open>NegativeInfinity\<close> (a dev release with no pre and no post),
    \<open>(1, letter, n)\<close> a pre-release, \<open>(2, _, _)\<close> is \<open>Infinity\<close> (no pre-release);
  \<^item> post: \<open>(0, _)\<close> is \<open>NegativeInfinity\<close> (none), \<open>(1, n)\<close> is \<open>('post', n)\<close>;
  \<^item> dev: \<open>(0, n)\<close> is \<open>('dev', n)\<close>, \<open>(1, _)\<close> is \<open>Infinity\<close> (none);
  \<^item> local: \<open>(0, [])\<close> is \<open>NegativeInfinity\<close> (none); in \<open>(1, parts)\<close> a numeric part
    \<open>(n, '')\<close> is \<open>(1, n, [])\<close> and a text part \<open>(NegativeInfinity, s)\<close> is \<open>(0, 0, s)\<close>.
  Tuples and strings compare lexicographically, as in Python.
\<close>

type_synonym cmpkey =
  "nat \<times> nat list \<times> (nat \<times> string \<times> nat) \<times> (nat \<times> nat) \<times> (nat \<times> nat) \<times> (nat \<times> (nat \<times> nat \<times> string) list)"

definition cmpkey :: "version \<Rightarrow> cmpkey" where
  "cmpkey v =
     (epoch v,
      rev (dropWhile (\<lambda>x. x = 0) (rev (release v))),
      (case pre v of
         None \<Rightarrow> if post v = None \<and> dev v \<noteq> None then (0, [], 0) else (2, [], 0)
       | Some (l, n) \<Rightarrow> (1, l, n)),
      (case post v of None \<Rightarrow> (0, 0) | Some n \<Rightarrow> (1, n)),
      (case dev v of None \<Rightarrow> (1, 0) | Some n \<Rightarrow> (0, n)),
      (case local_segs v of
         None \<Rightarrow> (0, [])
       | Some ps \<Rightarrow> (1, map (\<lambda>p. case p of Inl n \<Rightarrow> (1, n, []) | Inr s \<Rightarrow> (0, 0, s)) ps)))"

section \<open>\<open>parse_version_safe\<close>\<close>

text \<open>The loop of the fallback: \<open>int(part)\<close> for each part, up to the first that fails.\<close>

fun int_parts :: "string list \<Rightarrow> int list" where
  "int_parts [] = []"
| "int_parts (p # ps) = (case py_int p of None \<Rightarrow> [] | Some n \<Rightarrow> n # int_parts ps)"

text \<open>\<open>while len(parts) < 3: parts.append(0)\<close>\<close>

definition pad3 :: "int list \<Rightarrow> int list" where
  "pad3 parts = parts @ replicate (3 - length parts) 0"

definition fallback_str :: "string \<Rightarrow> string" where
  "fallback_str v = join ''.'' (map py_str (pad3 (int_parts (split_on CHR ''.'' v))))"

text \<open>
  Only \<open>InvalidVersion\<close> is caught; the second \<open>Version\<close> is called inside the handler,
  so what it raises leaves the function.
\<close>

definition parse_version_safe :: "string \<Rightarrow> py_error + version" where
  "parse_version_safe v =
     (case Version v of
        Inr x \<Rightarrow> Inr x
      | Inl InvalidVersion \<Rightarrow> Version (fallback_str v)
      | Inl e \<Rightarrow> Inl e)"

text \<open>The key that \<open>max\<close> and \<open>sort\<close> compare when given \<open>key=parse_version_safe\<close>.\<close>

definition version_key :: "string \<Rightarrow> py_error + cmpkey" where
  "version_key v = map_sum id cmpkey (parse_version_safe v)"

text \<open>
  The filter of \<open>process_package\<close> and \<open>get_latest_version\<close>: a label is kept when
  \<open>parse_version_safe\<close> returns, dropped when it raises anything (a bare \<open>except\<close>).
\<close>

definition valid_versions :: "string list \<Rightarrow> string list" where
  "valid_versions versions =
     filter (\<lambda>v. case parse_version_safe v of Inl _ \<Rightarrow> False | Inr _ \<Rightarrow> True) versions"

text \<open>
  \<open>max(xs, key=f)\<close> and \<open>xs.sort(key=f)\<close>. The keys are computed in order and the first
  exception leaves the call. \<open>max\<close> keeps the first of several greatest items and raises
  \<open>ValueError\<close> on an empty list; \<open>sort\<close> is stable.
\<close>

fun with_keys :: "('a \<Rightarrow> py_error + 'k) \<Rightarrow> 'a list \<Rightarrow> py_error + ('k \<times> 'a) list" where
  "with_keys f [] = Inr []"
| "with_keys f (x # xs) =
     (case f x of
        Inl e \<Rightarrow> Inl e
      | Inr k \<Rightarrow> (case with_keys f xs of Inl e \<Rightarrow> Inl e | Inr kxs \<Rightarrow> Inr ((k, x) # kxs)))"

fun max_from :: "('k::linorder) \<times> 'a \<Rightarrow> ('k \<times> 'a) list \<Rightarrow> 'a" where
  "max_from best [] = snd best"
| "max_from best (x # xs) = max_from (if fst best < fst x then x else best) xs"

definition py_max :: "('a \<Rightarrow> py_error + ('k::linorder)) \<Rightarrow> 'a list \<Rightarrow> py_error + 'a" where
  "py_max f xs =
     (case with_keys f xs of
        Inl e \<Rightarrow> Inl e
      | Inr [] \<Rightarrow> Inl ValueError
      | Inr (kx # kxs) \<Rightarrow> Inr (max_from kx kxs))"

definition py_sort :: "('a \<Rightarrow> py_error + ('k::linorder)) \<Rightarrow> 'a list \<Rightarrow> py_error + 'a list" where
  "py_sort f xs =
     (case with_keys f xs of
        Inl e \<Rightarrow> Inl e
      | Inr kxs \<Rightarrow> Inr (map snd (sort_key fst kxs)))"

text \<open>
  The version that \<open>get_latest_version\<close> returns for a package whose directory holds the
  version directories \<open>versions\<close> (\<open>None\<close> of Python is \<open>None\<close>), and that
  \<open>process_package\<close> takes as its target when no version is asked for.
\<close>

definition latest_version :: "string list \<Rightarrow> py_error + string option" where
  "latest_version versions =
     (let valid = valid_versions versions
      in if valid = [] then Inr None else map_sum id Some (py_max version_key valid))"

section \<open>The state store, the mirror and the downloads directory\<close>

text \<open>
  A timestamp is written with \<open>datetime.now().isoformat()\<close> and read back with
  \<open>datetime.fromisoformat\<close>; the model keeps the \<open>datetime\<close> itself.
\<close>

record datetime =
  year :: int
  month :: int
  day :: int
  time_of_day :: nat

text \<open>One entry of \<open>state['downloads'][package_id]['versions']\<close>.\<close>

record version_entry =
  git_rev :: string
  files :: "(string \<times> string) list"
  timestamp :: datetime
  pinned :: bool

text \<open>
  \<open>state['downloads'][package_id]\<close>: the versions, and the key \<open>'timestamp'\<close> that
  \<open>process_package\<close> sets on the package itself.
\<close>

record package_info =
  versions :: "(string \<times> version_entry) list"
  package_timestamp :: "datetime option"

type_synonym downloads = "(string \<times> package_info) list"

text \<open>\<open>state.json\<close>; a new project has no key \<open>'downloads'\<close>.\<close>

record state =
  path :: string
  last_sync :: "datetime option"
  downloads :: "downloads option"

text \<open>
  A manifest as \<open>yaml.safe_load\<close> returns it: the keys the code reads, optional as in the
  dictionary, and the remaining keys.
\<close>

record installer =
  Architecture :: "string option"
  InstallerUrl :: "string option"
  InstallerSha256 :: "string option"
  installer_rest :: "(string \<times> string) list"

record manifest =
  ManifestType :: "string option"
  Installers :: "installer list option"
  manifest_rest :: "(string \<times> string) list"

text \<open>
  What \<open>yaml.safe_load\<close> makes of a file: a mapping, or a document that is no mapping
  (nothing, a scalar, a list), on which \<open>.get\<close> raises \<open>AttributeError\<close>.
\<close>

datatype document = Mapping manifest | NoMapping

text \<open>
  The two exceptions that \<open>process_package\<close> catches around \<open>requests.get\<close> and
  \<open>raise_for_status\<close>.
\<close>

datatype request_error = HTTPError | RequestException

text \<open>
  The body of a response, as \<open>iter_content\<close> hands it over chunk by chunk: the whole of
  it, or the bytes that arrived before the connection broke and \<open>iter_content\<close> raised
  (\<open>ChunkedEncodingError\<close>, or another exception of \<open>requests\<close>).
\<close>

datatype body = Complete string | Interrupted string

text \<open>
  What the code reads from outside:
  \<^item> \<open>package_path pub pkg\<close>: the directory \<open>manifests/<letter>/<pub>/<pkg>\<close> of the
    checked-out repository, \<open>None\<close> when it is not a directory, else its version
    directories, each with its \<open>*.yaml\<close> files and their content;
  \<^item> \<open>yaml_load content\<close>: \<open>yaml.safe_load\<close> on a file with this content, \<open>None\<close> when
    it raises \<open>YAMLError\<close>;
  \<^item> \<open>yaml_dump m\<close>: the text written by
    \<open>yaml.dump(m, f, default_flow_style=False, sort_keys=False)\<close>;
  \<^item> \<open>head_commit\<close>: \<open>repo.head.commit.hexsha\<close>;
  \<^item> \<open>requests_get url\<close>: the exception of \<open>requests.get\<close> and \<open>raise_for_status\<close>, or
    the body of the response;
  \<^item> \<open>sha256 content\<close>: \<open>hashlib.sha256(content).hexdigest()\<close>;
  \<^item> \<open>now_entry\<close> and \<open>now_package\<close>: the two readings of the clock.
\<close>

record world =
  package_path :: "string \<Rightarrow> string \<Rightarrow> (string \<times> (string \<times> string) list) list option"
  yaml_load :: "string \<Rightarrow> document option"
  yaml_dump :: "manifest \<Rightarrow> string"
  head_commit :: string
  requests_get :: "string \<Rightarrow> request_error + body"
  sha256 :: "string \<Rightarrow> string"
  now_entry :: datetime
  now_package :: datetime

text \<open>
  The downloads directory: for each existing directory \<open>downloads/<pub>/<pkg>/<version>\<close>
  the files in it, by name, with their content.
\<close>

type_synonym download_tree = "((string \<times> string \<times> string) \<times> (string \<times> string) list) list"

text \<open>\<open>download_dir.mkdir(parents=True, exist_ok=True)\<close>\<close>

definition mkdir :: "string \<times> string \<times> string \<Rightarrow> download_tree \<Rightarrow> download_tree" where
  "mkdir d tree = (case map_of tree d of None \<Rightarrow> tree @ [(d, [])] | Some _ \<Rightarrow> tree)"

definition write_file :: "string \<times> string \<times> string \<Rightarrow> string \<Rightarrow> string \<Rightarrow> download_tree \<Rightarrow> download_tree" where
  "write_file d name content tree =
     AList.update d (AList.update name content (case map_of tree d of None \<Rightarrow> [] | Some fs \<Rightarrow> fs)) tree"

text \<open>Truth value of an optional string: \<open>None\<close> and \<open>''\<close> are false.\<close>

definition truthy :: "string option \<Rightarrow> bool" where
  "truthy x = (case x of None \<Rightarrow> False | Some s \<Rightarrow> s \<noteq> [])"

text \<open>
  \<open>a, b = s.split(c, 1)\<close>: the text before and after the first \<open>c\<close>. \<open>None\<close> is the
  \<open>ValueError\<close> of unpacking a single part.
\<close>

definition split1 :: "char \<Rightarrow> string \<Rightarrow> (string \<times> string) option" where
  "split1 c s =
     (if c \<in> set s then Some (takeWhile (\<lambda>x. x \<noteq> c) s, tl (dropWhile (\<lambda>x. x \<noteq> c) s)) else None)"

text \<open>
  \<open>Path(url).name\<close> on a POSIX system: the last component, where empty components and
  \<open>.\<close> do not count; \<open>''\<close> when there is none.
\<close>

definition path_name :: "string \<Rightarrow> string" where
  "path_name url =
     (case filter (\<lambda>p. p \<noteq> [] \<and> p \<noteq> ''.'') (split_on CHR ''/'' url) of
        [] \<Rightarrow> []
      | p # ps \<Rightarrow> last (p # ps))"

section \<open>\<open>process_package\<close>\<close>

text \<open>
  Lines 75 to 124 read and decide, and write nothing: the publisher and the package, the
  target version and the list of installers. \<open>Inr None\<close> is \<open>return False\<close>.
\<close>

record download_plan =
  plan_pub :: string
  plan_pkg :: string
  target_version :: string
  plan_installers :: "installer list"

definition choose_target :: "string list \<Rightarrow> string option \<Rightarrow> py_error + string option" where
  "choose_target valid version_filter =
     (case version_filter of
        None \<Rightarrow> map_sum id Some (py_max version_key valid)
      | Some f \<Rightarrow>
          if f = [] then map_sum id Some (py_max version_key valid)
          else if f \<in> set valid then Inr (Some f)
          else Inr None)"

definition get_installers :: "manifest \<Rightarrow> installer list" where
  "get_installers m = (case Installers m of None \<Rightarrow> [] | Some xs \<Rightarrow> xs)"

text \<open>
  Lines 115 to 124: the manifest of the version is loaded; the installers are read from
  the installer manifest when there is one, else from the manifest of the version.
\<close>

definition load_installers :: "world \<Rightarrow> string \<Rightarrow> string option \<Rightarrow> py_error + installer list" where
  "load_installers w content installer_content =
     (case yaml_load w content of
        None \<Rightarrow> Inl YAMLError
      | Some manifest_doc \<Rightarrow>
          (case installer_content of
             Some c \<Rightarrow>
               (case yaml_load w c of
                  None \<Rightarrow> Inl YAMLError
                | Some NoMapping \<Rightarrow> Inl AttributeError
                | Some (Mapping installer_manifest) \<Rightarrow> Inr (get_installers installer_manifest))
           | None \<Rightarrow>
               (case manifest_doc of
                  NoMapping \<Rightarrow> Inl AttributeError
                | Mapping m \<Rightarrow> Inr (get_installers m))))"

definition resolve :: "world \<Rightarrow> string \<Rightarrow> string option \<Rightarrow> py_error + download_plan option" where
  "resolve w package_id version_filter =
     (case split1 CHR ''.'' package_id of
        None \<Rightarrow> Inr None
      | Some (pub, pkg) \<Rightarrow>
          if pub = [] then Inl IndexError
          else
            (case package_path w pub pkg of
               None \<Rightarrow> Inr None
             | Some version_dirs \<Rightarrow>
                 (let valid = valid_versions (map fst version_dirs)
                  in if valid = [] then Inr None
                     else
                       (case choose_target valid version_filter of
                          Inl e \<Rightarrow> Inl e
                        | Inr None \<Rightarrow> Inr None
                        | Inr (Some tv) \<Rightarrow>
                            (case map_of version_dirs tv of
                               None \<Rightarrow> Inr None
                             | Some yamls \<Rightarrow>
                                 (case map_of yamls (pub @ ''.'' @ pkg @ ''.yaml'') of
                                    None \<Rightarrow> Inr None
                                  | Some content \<Rightarrow>
                                      (case load_installers w content
                                              (map_of yamls (pub @ ''.'' @ pkg @ ''.installer.yaml'')) of
                                         Inl e \<Rightarrow> Inl e
                                       | Inr installers \<Rightarrow>
                                           Inr (Some \<lparr>plan_pub = pub, plan_pkg = pkg, target_version = tv,
                                                      plan_installers = installers\<rparr>))))))))"

text \<open>Lines 129 to 139: the entry of the target version is written anew.\<close>

definition fresh_entry :: "world \<Rightarrow> string option \<Rightarrow> version_entry" where
  "fresh_entry w version_filter =
     \<lparr>git_rev = head_commit w, files = [], timestamp = now_entry w, pinned = truthy version_filter\<rparr>"

definition record_entry :: "downloads \<Rightarrow> string \<Rightarrow> string \<Rightarrow> version_entry \<Rightarrow> downloads" where
  "record_entry downloaded package_id tv e =
     (let info = (case map_of downloaded package_id of
                    None \<Rightarrow> \<lparr>versions = [], package_timestamp = None\<rparr>
                  | Some i \<Rightarrow> i)
      in AList.update package_id (info\<lparr>versions := AList.update tv e (versions info)\<rparr>) downloaded)"

text \<open>\<open>downloaded[package_id]['versions'][tv]\<close> and its \<open>'files'\<close>, when they are there.\<close>

definition get_entry :: "downloads \<Rightarrow> string \<Rightarrow> string \<Rightarrow> version_entry option" where
  "get_entry downloaded package_id tv =
     (case map_of downloaded package_id of None \<Rightarrow> None | Some info \<Rightarrow> map_of (versions info) tv)"

definition entry_files :: "downloads \<Rightarrow> string \<Rightarrow> string \<Rightarrow> (string \<times> string) list" where
  "entry_files downloaded package_id tv =
     (case get_entry downloaded package_id tv of None \<Rightarrow> [] | Some e \<Rightarrow> files e)"

text \<open>\<open>downloaded[package_id]['versions'][tv]['files'][filename] = computed_hash\<close>\<close>

definition set_file :: "downloads \<Rightarrow> string \<Rightarrow> string \<Rightarrow> string \<Rightarrow> string \<Rightarrow> downloads" where
  "set_file downloaded package_id tv filename computed_hash =
     map (\<lambda>(pid, info).
            if pid = package_id
            then (pid, info\<lparr>versions :=
                    map (\<lambda>(v, e). if v = tv
                                   then (v, e\<lparr>files := AList.update filename computed_hash (files e)\<rparr>)
                                   else (v, e)) (versions info)\<rparr>)
            else (pid, info)) downloaded"

text \<open>Lines 143 to 157: the first x64 installer with a URL, else the first x86 one.\<close>

definition eligible :: "string \<Rightarrow> installer \<Rightarrow> bool" where
  "eligible arch inst = (Architecture inst = Some arch \<and> truthy (InstallerUrl inst))"

definition choose_installer :: "installer list \<Rightarrow> installer option" where
  "choose_installer installers =
     (case find (eligible ''x64'') installers of
        Some inst \<Rightarrow> Some inst
      | None \<Rightarrow> find (eligible ''x86'') installers)"

text \<open>Line 200: the condition of the warning about the hash; it changes nothing.\<close>

definition hash_mismatch :: "string option \<Rightarrow> string \<Rightarrow> bool" where
  "hash_mismatch expected computed_hash =
     (case expected of None \<Rightarrow> False | Some h \<Rightarrow> h \<noteq> [] \<and> computed_hash \<noteq> map ascii_lower h)"

text \<open>Lines 208 to 214.\<close>

definition finish :: "world \<Rightarrow> downloads \<Rightarrow> string \<Rightarrow> string \<Rightarrow> download_tree \<Rightarrow> bool \<times> downloads \<times> download_tree" where
  "finish w downloaded package_id tv tree =
     (if entry_files downloaded package_id tv \<noteq> []
      then (True,
            map (\<lambda>(pid, info). if pid = package_id
                                then (pid, info\<lparr>package_timestamp := Some (now_package w)\<rparr>)
                                else (pid, info)) downloaded,
            tree)
      else (False, downloaded, tree))"

text \<open>
  Lines 126 to 214, everything that writes. What the call leaves behind when it raises is
  part of the result: the state as it is in memory at that moment, and the directory.

  A file name \<open>''\<close> or \<open>..\<close> makes \<open>filepath\<close> a directory that exists, and \<open>open\<close> raises.
  The \<open>try\<close> of lines 174 to 182 covers \<open>requests.get\<close> and \<open>raise_for_status\<close> only; the
  body is read afterwards (lines 186 to 195), into a file that is open for writing, and
  an exception of \<open>iter_content\<close> leaves the function with the bytes that arrived in the
  file. (The header \<open>content-length\<close>, read for the progress bar, is taken to be a number.)
\<close>

definition materialize ::
  "world \<Rightarrow> download_tree \<Rightarrow> downloads \<Rightarrow> string \<Rightarrow> string option \<Rightarrow> download_plan \<Rightarrow>
   (py_error \<times> downloads \<times> download_tree) + (bool \<times> downloads \<times> download_tree)" where
  "materialize w tree downloaded package_id version_filter plan =
     (let tv = target_version plan;
          download_dir = (plan_pub plan, plan_pkg plan, tv);
          tree1 = mkdir download_dir tree;
          downloaded1 = record_entry downloaded package_id tv (fresh_entry w version_filter)
      in case choose_installer (plan_installers plan) of
           None \<Rightarrow> Inr (False, downloaded1, tree1)
         | Some inst \<Rightarrow>
             (case InstallerUrl inst of
                None \<Rightarrow> Inr (False, downloaded1, tree1)
              | Some url \<Rightarrow>
                  (let filename = path_name url
                   in if filename = [] \<or> filename = ''..'' then Inl (IsADirectoryError, downloaded1, tree1)
                      else
                        (case map_of (case map_of tree1 download_dir of None \<Rightarrow> [] | Some fs \<Rightarrow> fs) filename of
                           Some content \<Rightarrow>
                             Inr (finish w
                                    (if filename \<notin> fst ` set (entry_files downloaded1 package_id tv)
                                     then set_file downloaded1 package_id tv filename (sha256 w content)
                                     else downloaded1)
                                    package_id tv tree1)
                         | None \<Rightarrow>
                             (case requests_get w url of
                                Inl _ \<Rightarrow> Inr (False, downloaded1, tree1)
                              | Inr (Interrupted received) \<Rightarrow>
                                  Inl (ChunkedEncodingError, downloaded1,
                                       write_file download_dir filename received tree1)
                              | Inr (Complete content) \<Rightarrow>
                                  Inr (finish w
                                         (set_file downloaded1 package_id tv filename (sha256 w content))
                                         package_id tv
                                         (write_file download_dir filename content tree1)))))))"

definition process_package ::
  "world \<Rightarrow> download_tree \<Rightarrow> downloads \<Rightarrow> string \<Rightarrow> string option \<Rightarrow>
   (py_error \<times> downloads \<times> download_tree) + (bool \<times> downloads \<times> download_tree)" where
  "process_package w tree downloaded package_id version_filter =
     (case resolve w package_id version_filter of
        Inl e \<Rightarrow> Inl (e, downloaded, tree)
      | Inr None \<Rightarrow> Inr (False, downloaded, tree)
      | Inr (Some plan) \<Rightarrow> materialize w tree downloaded package_id version_filter plan)"

section \<open>\<open>WingetPackage\<close>\<close>

record winget_package =
  package_id :: string
  pub :: string
  pkg :: string

text \<open>The constructor unpacks \<open>package_id.split('.', 1)\<close>.\<close>

definition WingetPackage :: "string \<Rightarrow> py_error + winget_package" where
  "WingetPackage pid =
     (case split1 CHR ''.'' pid of
        None \<Rightarrow> Inl ValueError
      | Some (a, b) \<Rightarrow> Inr \<lparr>package_id = pid, pub = a, pkg = b\<rparr>)"

text \<open>\<open>download\<close>: \<open>state.setdefault('downloads', {})\<close>, then \<open>process_package\<close>.\<close>

definition download ::
  "world \<Rightarrow> download_tree \<Rightarrow> state \<Rightarrow> winget_package \<Rightarrow> string option \<Rightarrow>
   (py_error \<times> state \<times> download_tree) + (bool \<times> state \<times> download_tree)" where
  "download w tree st p version =
     (case process_package w tree (case downloads st of None \<Rightarrow> [] | Some d \<Rightarrow> d) (package_id p) version of
        Inl (e, d', tree') \<Rightarrow> Inl (e, st\<lparr>downloads := Some d'\<rparr>, tree')
      | Inr (b, d', tree') \<Rightarrow> Inr (b, st\<lparr>downloads := Some d'\<rparr>, tree'))"


subsection \<open>\<open>validate_hashes\<close>\<close>

datatype match_status = MATCH | MISMATCH

record file_result =
  status :: match_status
  expected :: string
  computed :: string

text \<open>
  \<open>version_results\<close>. \<open>unexpected_files\<close> is \<open>list(set - set)\<close>, whose order Python does
  not fix: it is a set here.
\<close>

record version_results =
  version_valid :: bool
  file_results :: "(string \<times> file_result) list"
  missing_files :: "string list"
  unexpected_files :: "string set"

record validation =
  valid :: bool
  error :: "string option"
  version_reports :: "(string \<times> version_results) list"

text \<open>Lines 477 to 495: one recorded file.\<close>

definition check_file :: "(string \<Rightarrow> string) \<Rightarrow> (string \<times> string) list \<Rightarrow> version_results \<Rightarrow> string \<times> string \<Rightarrow> version_results" where
  "check_file h actual_files r f =
     (case f of (filename, expected_hash) \<Rightarrow>
        (case map_of actual_files filename of
           None \<Rightarrow> r\<lparr>missing_files := missing_files r @ [filename], version_valid := False\<rparr>
         | Some content \<Rightarrow>
             r\<lparr>file_results :=
                  AList.update filename
                    \<lparr>status = (if h content = expected_hash then MATCH else MISMATCH),
                     expected = expected_hash, computed = h content\<rparr> (file_results r),
               version_valid := (version_valid r \<and> h content = expected_hash)\<rparr>))"

text \<open>Lines 456 to 503: one version of the package.\<close>

definition validate_version ::
  "(string \<Rightarrow> string) \<Rightarrow> download_tree \<Rightarrow> winget_package \<Rightarrow> string \<Rightarrow> version_entry \<Rightarrow> version_results" where
  "validate_version h tree p version vdata =
     (let r0 = \<lparr>version_valid = True, file_results = [], missing_files = [], unexpected_files = {}\<rparr>
      in if files vdata = [] then r0
         else
           (case map_of tree (pub p, pkg p, version) of
              None \<Rightarrow> r0\<lparr>version_valid := False\<rparr>
            | Some actual_files \<Rightarrow>
                (foldl (check_file h actual_files) r0 (files vdata))
                  \<lparr>unexpected_files := fst ` set actual_files - fst ` set (files vdata)\<rparr>))"

definition validate_hashes :: "(string \<Rightarrow> string) \<Rightarrow> download_tree \<Rightarrow> state \<Rightarrow> winget_package \<Rightarrow> validation" where
  "validate_hashes h tree st p =
     (case map_of (case downloads st of None \<Rightarrow> [] | Some d \<Rightarrow> d) (package_id p) of
        None \<Rightarrow> \<lparr>valid = False, error = Some ''Package not in state'', version_reports = []\<rparr>
      | Some package_info \<Rightarrow>
          (let rs = map (\<lambda>(version, vdata). (version, validate_version h tree p version vdata))
                        (versions package_info)
           in \<lparr>valid = list_all (\<lambda>(version, r). version_valid r) rs, error = None,
                version_reports = rs\<rparr>))"

section \<open>\<open>cleanup\<close>: the versions selected for removal\<close>

text \<open>Line 495.\<close>

definition age_months :: "datetime \<Rightarrow> datetime \<Rightarrow> int" where
  "age_months now ts = (year now - year ts) * 12 + (month now - month ts)"

text \<open>
  The slice \<open>xs[:-n]\<close>: all but the last \<open>n\<close> items when \<open>n\<close> is positive, nothing when
  \<open>n\<close> is 0 (the stop is then index 0), the first \<open>-n\<close> items when \<open>n\<close> is negative.
\<close>

definition slice_to_minus :: "int \<Rightarrow> 'a list \<Rightarrow> 'a list" where
  "slice_to_minus n xs =
     (if 0 < n then take (length xs - nat n) xs
      else if n = 0 then []
      else take (nat (- n)) xs)"

text \<open>Lines 493 to 497: the age rule adds a version that is not selected yet.\<close>

definition add_aged ::
  "datetime \<Rightarrow> int \<Rightarrow> (string \<times> version_entry) list \<Rightarrow> string \<times> version_entry \<Rightarrow>
   (string \<times> version_entry) list" where
  "add_aged now max_age_months to_delete item =
     (if max_age_months < age_months now (timestamp (snd item)) \<and> item \<notin> set to_delete
      then to_delete @ [item] else to_delete)"

text \<open>
  Lines 477 to 497 for one package: \<open>to_delete\<close>, from the \<open>versions\<close> of the package.
  The keys of the sort are computed by \<open>parse_version_safe\<close>, which may raise.
\<close>

definition cleanup_select ::
  "datetime \<Rightarrow> int \<Rightarrow> int \<Rightarrow> (string \<times> version_entry) list \<Rightarrow>
   py_error + (string \<times> version_entry) list" where
  "cleanup_select now max_versions max_age_months vs =
     (let unpinned = filter (\<lambda>item. \<not> pinned (snd item)) vs
      in if unpinned = [] then Inr []
         else
           (case py_sort (\<lambda>item. version_key (fst item)) unpinned of
              Inl e \<Rightarrow> Inl e
            | Inr sorted_unpinned \<Rightarrow>
                Inr (foldl (add_aged now max_age_months)
                       (if max_versions < int (length sorted_unpinned)
                        then slice_to_minus max_versions sorted_unpinned else [])
                       sorted_unpinned)))"

section \<open>\<open>patch_repo\<close>\<close>

record config =
  server_url :: "string option"
  patch_dir :: "string option"

text \<open>Lines 396 to 400: one entry of \<open>Installers\<close>.\<close>

definition patch_installer :: "string \<Rightarrow> string \<Rightarrow> string \<Rightarrow> string \<Rightarrow> installer \<Rightarrow> installer" where
  "patch_installer server pub_name pkg_name version inst =
     (case InstallerUrl inst of
        None \<Rightarrow> inst
      | Some original_url \<Rightarrow>
          inst\<lparr>InstallerUrl :=
                 Some (rstrip_slash server @ ''/downloads/'' @ pub_name @ ''/'' @ pkg_name @ ''/''
                       @ version @ ''/'' @ path_name original_url)\<rparr>)"

text \<open>Lines 394 to 400: the mapping that was loaded is changed when it is an installer manifest.\<close>

definition patch_manifest :: "string \<Rightarrow> string \<Rightarrow> string \<Rightarrow> string \<Rightarrow> manifest \<Rightarrow> manifest" where
  "patch_manifest server pub_name pkg_name version m =
     (case Installers m of
        None \<Rightarrow> m
      | Some insts \<Rightarrow>
          if ManifestType m = Some ''installer''
          then m\<lparr>Installers := Some (map (patch_installer server pub_name pkg_name version) insts)\<rparr>
          else m)"

text \<open>
  The output directory: for each directory \<open><patch_dir>/manifests/<letter>/<pub>/<pkg>/<version>\<close>
  that exists, its files with their content.
\<close>

type_synonym patched_tree = "((string \<times> string \<times> string \<times> string) \<times> (string \<times> string) list) list"

text \<open>
  Lines 389 to 404: every \<open>*.yaml\<close> of the source directory is loaded, changed and dumped
  under its name in the target directory, one file after the other. When a file does
  not load, or is no mapping, the exception leaves the function; the files written so
  far stay.
\<close>

fun patch_files ::
  "world \<Rightarrow> string \<Rightarrow> string \<Rightarrow> string \<Rightarrow> string \<Rightarrow> (string \<times> string) list \<Rightarrow> (string \<times> string) list \<Rightarrow>
   (py_error \<times> (string \<times> string) list) + (string \<times> string) list" where
  "patch_files w server pub_name pkg_name version [] target = Inr target"
| "patch_files w server pub_name pkg_name version ((name, content) # rest) target =
     (case yaml_load w content of
        None \<Rightarrow> Inl (YAMLError, target)
      | Some NoMapping \<Rightarrow> Inl (AttributeError, target)
      | Some (Mapping m) \<Rightarrow>
          patch_files w server pub_name pkg_name version rest
            (AList.update name (yaml_dump w (patch_manifest server pub_name pkg_name version m)) target))"

text \<open>Lines 377 to 382: the source directory of a version, when it exists.\<close>

definition source_manifest_dir :: "world \<Rightarrow> string \<Rightarrow> string \<Rightarrow> string \<Rightarrow> (string \<times> string) list option" where
  "source_manifest_dir w pub_name pkg_name version =
     (case package_path w pub_name pkg_name of
        None \<Rightarrow> None
      | Some version_dirs \<Rightarrow> map_of version_dirs version)"

text \<open>Lines 375 to 407: the versions of one package; the count goes along.\<close>

fun patch_versions ::
  "world \<Rightarrow> string \<Rightarrow> string \<Rightarrow> string \<Rightarrow> string \<Rightarrow> string list \<Rightarrow> nat \<times> patched_tree \<Rightarrow>
   (py_error \<times> patched_tree) + (nat \<times> patched_tree)" where
  "patch_versions w server out pub_name pkg_name [] acc = Inr acc"
| "patch_versions w server out pub_name pkg_name (version # vs) acc =
     (case source_manifest_dir w pub_name pkg_name version of
        None \<Rightarrow> patch_versions w server out pub_name pkg_name vs acc
      | Some yamls \<Rightarrow>
          (case patch_files w server pub_name pkg_name version yamls
                  (case map_of (snd acc) (out, pub_name, pkg_name, version) of None \<Rightarrow> [] | Some fs \<Rightarrow> fs) of
             Inl (e, fs) \<Rightarrow> Inl (e, AList.update (out, pub_name, pkg_name, version) fs (snd acc))
           | Inr fs \<Rightarrow>
               patch_versions w server out pub_name pkg_name vs
                 (Suc (fst acc), AList.update (out, pub_name, pkg_name, version) fs (snd acc))))"

text \<open>Lines 371 to 407: the packages, one after the other; an exception ends the loop.\<close>

fun patch_packages ::
  "world \<Rightarrow> string \<Rightarrow> string \<Rightarrow> (string \<times> package_info) list \<Rightarrow> nat \<times> patched_tree \<Rightarrow>
   (py_error \<times> patched_tree) + (nat \<times> patched_tree)" where
  "patch_packages w server out [] acc = Inr acc"
| "patch_packages w server out ((pid, info) # rest) acc =
     (case split1 CHR ''.'' pid of
        None \<Rightarrow> Inl (ValueError, snd acc)
      | Some (pub_name, pkg_name) \<Rightarrow>
          if versions info \<noteq> [] \<and> pub_name = [] then Inl (IndexError, snd acc)
          else
            (case patch_versions w server out pub_name pkg_name (map fst (versions info)) acc of
               Inl x \<Rightarrow> Inl x
             | Inr acc' \<Rightarrow> patch_packages w server out rest acc'))"

text \<open>\<open>a or b\<close> for two optional strings: \<open>a\<close> when it is there and not empty, else \<open>b\<close>.\<close>

definition py_or :: "string option \<Rightarrow> string option \<Rightarrow> string option" where
  "py_or a b = (if truthy a then a else b)"

text \<open>
  \<open>patch_repo(server_url, patch_dir)\<close>: the count that is returned and the output
  directory afterwards. An argument that is missing or empty is taken from the
  configuration.
\<close>

definition patch_repo ::
  "world \<Rightarrow> config \<Rightarrow> state \<Rightarrow> string option \<Rightarrow> string option \<Rightarrow> patched_tree \<Rightarrow>
   (py_error \<times> patched_tree) + (nat \<times> patched_tree)" where
  "patch_repo w cfg st server_arg dir_arg out_tree =
     (case downloads st of
        None \<Rightarrow> Inr (0, out_tree)
      | Some d \<Rightarrow>
          if d = [] then Inr (0, out_tree)
          else
            (case (py_or server_arg (server_url cfg), py_or dir_arg (patch_dir cfg)) of
               (Some s, Some out_dir) \<Rightarrow>
                 if s = [] \<or> out_dir = [] then Inr (0, out_tree)
                 else patch_packages w s out_dir d (0, out_tree)
             | _ \<Rightarrow> Inr (0, out_tree)))"

section \<open>The examples of the specification, as data\<close>

definition stamp :: "int \<Rightarrow> int \<Rightarrow> datetime" where
  "stamp y m = \<lparr>year = y, month = m, day = 1, time_of_day = 0\<rparr>"

definition entry_of :: "bool \<Rightarrow> datetime \<Rightarrow> version_entry" where
  "entry_of p t = \<lparr>git_rev = ''0a1b2c'', files = [], timestamp = t, pinned = p\<rparr>"

text \<open>Four versions, none pinned, the oldest five months before June 2025.\<close>

definition four_unpinned :: "(string \<times> version_entry) list" where
  "four_unpinned =
     [(''1.2'', entry_of False (stamp 2025 5)), (''1.0'', entry_of False (stamp 2025 1)),
      (''1.3'', entry_of False (stamp 2025 6)), (''1.1'', entry_of False (stamp 2025 3))]"

text \<open>The same with 1.0 pinned, and fetched in 2020.\<close>

definition one_pinned :: "(string \<times> version_entry) list" where
  "one_pinned =
     [(''1.0'', entry_of True (stamp 2020 1)), (''1.1'', entry_of False (stamp 2025 3)),
      (''1.2'', entry_of False (stamp 2025 5)), (''1.3'', entry_of False (stamp 2025 6))]"

text \<open>
  The package \<open>Foo.Bar\<close> with its version 1.2.3: a version manifest, an installer manifest
  for x64 and a locale manifest.
\<close>

definition bar_installer :: installer where
  "bar_installer =
     \<lparr>Architecture = Some ''x64'', InstallerUrl = Some ''https://example.com/foo/Bar-1.2.3.exe'',
      InstallerSha256 = Some ''0F0F'', installer_rest = [(''InstallerType'', ''exe'')]\<rparr>"

definition bar_installer_manifest :: manifest where
  "bar_installer_manifest =
     \<lparr>ManifestType = Some ''installer'', Installers = Some [bar_installer],
      manifest_rest = [(''PackageIdentifier'', ''Foo.Bar''), (''PackageVersion'', ''1.2.3'')]\<rparr>"

definition bar_version_manifest :: manifest where
  "bar_version_manifest =
     \<lparr>ManifestType = Some ''version'', Installers = None,
      manifest_rest = [(''PackageIdentifier'', ''Foo.Bar''), (''PackageVersion'', ''1.2.3'')]\<rparr>"

definition bar_locale_manifest :: manifest where
  "bar_locale_manifest =
     \<lparr>ManifestType = Some ''defaultLocale'', Installers = None,
      manifest_rest = [(''PackageIdentifier'', ''Foo.Bar''), (''PackageName'', ''Bar'')]\<rparr>"

text \<open>
  The three files as they are in the repository, each with a comment in its first line,
  and the text \<open>yaml.dump\<close> writes for each mapping.
\<close>

definition lines_text :: "string list \<Rightarrow> string" where
  "lines_text ls = concat (map (\<lambda>l. l @ [CHR 0x0A]) ls)"

definition bar_installer_text :: string where
  "bar_installer_text =
     lines_text
       [''# Created with YamlCreate.ps1'',
        ''PackageIdentifier: Foo.Bar'',
        ''PackageVersion: 1.2.3'',
        ''Installers:'',
        ''- Architecture: x64'',
        ''  InstallerUrl: https://example.com/foo/Bar-1.2.3.exe'',
        ''  InstallerSha256: 0F0F'',
        ''  InstallerType: exe'',
        ''ManifestType: installer'']"

definition bar_version_text :: string where
  "bar_version_text =
     lines_text
       [''# Created with YamlCreate.ps1'',
        ''PackageIdentifier: Foo.Bar'',
        ''PackageVersion: 1.2.3'',
        ''ManifestType: version'']"

definition bar_locale_text :: string where
  "bar_locale_text =
     lines_text
       [''# Created with YamlCreate.ps1'',
        ''PackageIdentifier: Foo.Bar'',
        ''PackageName: Bar'',
        ''ManifestType: defaultLocale'']"

definition bar_yamls :: "(string \<times> string) list" where
  "bar_yamls =
     [(''Foo.Bar.installer.yaml'', bar_installer_text),
      (''Foo.Bar.locale.en-US.yaml'', bar_locale_text),
      (''Foo.Bar.yaml'', bar_version_text)]"

text \<open>The installer of the example, as the mirror at \<open>https://mirror.local\<close> serves it.\<close>

definition bar_installer_patched :: installer where
  "bar_installer_patched =
     \<lparr>Architecture = Some ''x64'',
      InstallerUrl = Some ''https://mirror.local/downloads/Foo/Bar/1.2.3/Bar-1.2.3.exe'',
      InstallerSha256 = Some ''0F0F'', installer_rest = [(''InstallerType'', ''exe'')]\<rparr>"

definition bar_installer_dump :: string where
  "bar_installer_dump =
     lines_text
       [''PackageIdentifier: Foo.Bar'',
        ''PackageVersion: 1.2.3'',
        ''Installers:'',
        ''- Architecture: x64'',
        ''  InstallerUrl: https://mirror.local/downloads/Foo/Bar/1.2.3/Bar-1.2.3.exe'',
        ''  InstallerSha256: 0F0F'',
        ''  InstallerType: exe'',
        ''ManifestType: installer'']"

definition bar_version_dump :: string where
  "bar_version_dump =
     lines_text
       [''PackageIdentifier: Foo.Bar'',
        ''PackageVersion: 1.2.3'',
        ''ManifestType: version'']"

definition bar_locale_dump :: string where
  "bar_locale_dump =
     lines_text
       [''PackageIdentifier: Foo.Bar'',
        ''PackageName: Bar'',
        ''ManifestType: defaultLocale'']"

text \<open>
  \<open>yaml.safe_load\<close> and \<open>yaml.dump\<close> on the files of the example; nothing else is loaded or
  dumped in it.
\<close>

definition bar_load :: "string \<Rightarrow> document option" where
  "bar_load content =
     map_option Mapping
       (map_of [(bar_installer_text, bar_installer_manifest),
                (bar_locale_text, bar_locale_manifest),
                (bar_version_text, bar_version_manifest)] content)"

definition bar_dump :: "manifest \<Rightarrow> string" where
  "bar_dump m =
     (case map_of [(bar_installer_manifest\<lparr>Installers := Some [bar_installer_patched]\<rparr>, bar_installer_dump),
                   (bar_locale_manifest, bar_locale_dump),
                   (bar_version_manifest, bar_version_dump)] m of
        None \<Rightarrow> []
      | Some t \<Rightarrow> t)"

text \<open>
  A world with this package only, in which every request has the result \<open>r\<close>. The digest
  stands for SHA-256: any function of the content will do.
\<close>

definition bar_world :: "request_error + body \<Rightarrow> world" where
  "bar_world r =
     \<lparr>package_path = (\<lambda>a b. if a = ''Foo'' \<and> b = ''Bar'' then Some [(''1.2.3'', bar_yamls)] else None),
      yaml_load = bar_load,
      yaml_dump = bar_dump,
      head_commit = ''0a1b2c'',
      requests_get = (\<lambda>url. r),
      sha256 = (\<lambda>content. ''sha256 of '' @ content),
      now_entry = stamp 2025 6,
      now_package = stamp 2025 6\<rparr>"

text \<open>A state in which 1.2.3 was fetched on request, and so is pinned.\<close>

definition bar_pinned :: downloads where
  "bar_pinned =
     [(''Foo.Bar'',
       \<lparr>versions = [(''1.2.3'', \<lparr>git_rev = ''0a1b2c'', files = [(''Bar-1.2.3.exe'', ''sha256 of setup'')],
                                 timestamp = stamp 2025 1, pinned = True\<rparr>)],
        package_timestamp = Some (stamp 2025 1)\<rparr>)]"

definition bar_package :: winget_package where
  "bar_package = \<lparr>package_id = ''Foo.Bar'', pub = ''Foo'', pkg = ''Bar''\<rparr>"

definition bar_dir :: "string \<times> string \<times> string" where
  "bar_dir = (''Foo'', ''Bar'', ''1.2.3'')"

definition baz_package :: winget_package where
  "baz_package = \<lparr>package_id = ''Foo.Baz'', pub = ''Foo'', pkg = ''Baz''\<rparr>"

definition mirror_state :: "downloads \<Rightarrow> state" where
  "mirror_state d = \<lparr>path = ''/srv/mirror'', last_sync = None, downloads = Some d\<rparr>"

text \<open>A state in which 1.2.3 is recorded with no file, and a directory that holds one.\<close>

definition bar_recorded :: downloads where
  "bar_recorded =
     [(''Foo.Bar'',
       \<lparr>versions = [(''1.2.3'', entry_of False (stamp 2025 1))], package_timestamp = None\<rparr>)]"

definition bar_tree :: download_tree where
  "bar_tree = [(bar_dir, [(''Bar-1.2.3.exe'', ''setup'')])]"

definition bar_plan :: download_plan where
  "bar_plan =
     \<lparr>plan_pub = ''Foo'', plan_pkg = ''Bar'', target_version = ''1.2.3'',
      plan_installers = [bar_installer]\<rparr>"

text \<open>The state after 1.2.3 was fetched in June 2025, on request (pinned) or as the latest.\<close>

definition bar_after :: "bool \<Rightarrow> downloads" where
  "bar_after p =
     [(''Foo.Bar'',
       \<lparr>versions = [(''1.2.3'', \<lparr>git_rev = ''0a1b2c'', files = [(''Bar-1.2.3.exe'', ''sha256 of setup'')],
                                 timestamp = stamp 2025 6, pinned = p\<rparr>)],
        package_timestamp = Some (stamp 2025 6)\<rparr>)]"

text \<open>The configuration that \<open>initialize\<close> writes, as far as \<open>patch_repo\<close> reads it.\<close>

definition default_config :: config where
  "default_config = \<lparr>server_url = Some ''https://localhost/winget'', patch_dir = Some ''patched-manifests''\<rparr>"

section \<open>Facts about the conversions\<close>

lemma is_digit_digit_char: "n < 10 \<Longrightarrow> is_digit (digit_char n)"
  by (simp add: is_digit_def digit_char_def)

lemma digit_val_digit_char: "n < 10 \<Longrightarrow> digit_val (digit_char n) = n"
  by (simp add: digit_val_def digit_char_def)

lemma digit_val_le: "is_digit c \<Longrightarrow> digit_val c \<le> 9"
  unfolding is_digit_def digit_val_def by linarith

lemma dec_digits_all: "list_all is_digit (dec_digits n)"
proof (induction n rule: dec_digits.induct)
  case (1 n)
  show ?case
  proof (cases "n < 10")
    case True
    then show ?thesis by (subst dec_digits.simps) (simp add: is_digit_digit_char)
  next
    case False
    with 1 show ?thesis by (subst dec_digits.simps) (simp add: is_digit_digit_char)
  qed
qed

lemma dec_digits_nonempty: "dec_digits n \<noteq> []"
  by (subst dec_digits.simps) simp

lemma nat_of_digits_snoc: "nat_of_digits (ds @ [c]) = 10 * nat_of_digits ds + digit_val c"
  by (simp add: nat_of_digits_def)

lemma nat_of_dec_digits: "nat_of_digits (dec_digits n) = n"
proof (induction n rule: dec_digits.induct)
  case (1 n)
  show ?case
  proof (cases "n < 10")
    case True
    then show ?thesis
      by (subst dec_digits.simps) (simp add: nat_of_digits_def digit_val_digit_char)
  next
    case False
    with 1 show ?thesis
      by (subst dec_digits.simps) (simp add: nat_of_digits_snoc digit_val_digit_char)
  qed
qed

lemma length_dec_digits: "n < 10 ^ k \<Longrightarrow> 0 < k \<Longrightarrow> length (dec_digits n) \<le> k"
proof (induction n arbitrary: k rule: dec_digits.induct)
  case (1 n)
  show ?case
  proof (cases "n < 10")
    case True
    with 1(3) show ?thesis by (subst dec_digits.simps) simp
  next
    case False
    obtain j where k: "k = Suc j" using 1(3) by (cases k) auto
    from False 1(2) k have "0 < j" by (cases j) auto
    moreover from 1(2) k have "n div 10 < 10 ^ j" by (simp add: less_mult_imp_div_less mult.commute)
    ultimately have "length (dec_digits (n div 10)) \<le> j" using 1(1) False by blast
    with False k show ?thesis by (subst dec_digits.simps) simp
  qed
qed

lemma nat_of_digits_bound: "list_all is_digit ds \<Longrightarrow> nat_of_digits ds < 10 ^ length ds"
proof (induction ds rule: rev_induct)
  case Nil
  then show ?case by (simp add: nat_of_digits_def)
next
  case (snoc c ds)
  then have "nat_of_digits ds < 10 ^ length ds" and "digit_val c \<le> 9"
    by (simp_all add: digit_val_le)
  then show ?case by (simp add: nat_of_digits_snoc)
qed

section \<open>Facts about \<open>Version\<close>\<close>

lemma dot_not_digit: "\<not> is_digit CHR ''.''"
  by (simp add: is_digit_def)

lemma release_segs_digits:
  "list_all is_digit d \<Longrightarrow> release_segs cur (d @ rest) = release_segs (cur @ d) rest"
  by (induction d arbitrary: cur) simp_all

lemma release_segs_dotted:
  "list_all (\<lambda>d. d \<noteq> [] \<and> list_all is_digit d) ds \<Longrightarrow>
   release_segs cur (concat (map ((#) CHR ''.'') ds)) = (cur # ds, [])"
proof (induction ds arbitrary: cur)
  case Nil
  then show ?case by simp
next
  case (Cons x xs)
  then obtain c x' where x: "x = c # x'" and c: "is_digit c" and x': "list_all is_digit x'"
    by (cases x) auto
  have "release_segs [] (x @ concat (map ((#) CHR ''.'') xs)) = (x # xs, [])"
    using Cons release_segs_digits [of x "[]" "concat (map ((#) CHR ''.'') xs)"] by simp
  then show ?case using x c by (simp add: dot_not_digit)
qed

lemma join_dot: "join ''.'' (p # ps) = p @ concat (map ((#) CHR ''.'') ps)"
  by (induction ps arbitrary: p) simp_all

lemma ascii_lower_digit: "is_digit c \<or> c = CHR ''.'' \<Longrightarrow> ascii_lower c = c"
  by (auto simp: is_digit_def ascii_lower_def)

lemma space_not_digit: "is_digit c \<Longrightarrow> \<not> py_isspace c"
  by (auto simp: is_digit_def py_isspace_def)

lemma digit_not_v: "is_digit c \<Longrightarrow> c \<noteq> CHR ''v''"
  by (auto simp: is_digit_def)

lemma letter_group_Nil:
  "letter_group [''alpha'', ''a'', ''beta'', ''b'', ''preview'', ''pre'', ''c'', ''rc''] [] = (None, [])"
  "letter_group [''post'', ''rev'', ''r''] [] = (None, [])"
  "letter_group [''dev''] [] = (None, [])"
  by (simp_all add: letter_group_def opt_sep_def)

lemma match_version_dotted:
  assumes d: "d \<noteq> []" "list_all is_digit d"
    and ds: "list_all (\<lambda>d. d \<noteq> [] \<and> list_all is_digit d) ds"
  shows "match_version (join ''.'' (d # ds)) =
         Some \<lparr>m_epoch = None, m_release = d # ds, m_pre = None, m_post = None, m_dev = None,
               m_local = None\<rparr>"
proof -
  let ?tail = "concat (map ((#) CHR ''.'') ds)"
  let ?s = "d @ ?tail"
  obtain c d' where dc: "d = c # d'" and c: "is_digit c" and d': "list_all is_digit d'"
    using d by (cases d) auto
  have tail: "?tail = [] \<or> (\<exists>r. ?tail = CHR ''.'' # r)"
    by (cases ds) simp_all
  have low: "map ascii_lower ?s = ?s"
    using d(2) ds by (induction ds) (auto simp: list_all_iff ascii_lower_digit intro!: map_idI)
  have sp: "skip_space_v ?s = ?s"
    using dc c digit_not_v [OF c] by (simp add: skip_space_v_def space_not_digit)
  have dw: "dropWhile is_digit ?s = ?tail"
    using d(2) tail by (auto simp: list_all_iff dot_not_digit dropWhile_append)
  have ep: "epoch_group ?s = (None, ?s)"
    unfolding epoch_group_def dw using tail by auto
  have rel: "release_group ?s = Some (d # ds, [])"
    using release_segs_digits [OF d', of "[c]" ?tail] release_segs_dotted [OF ds, of d] dc c
    by (simp add: release_group_def)
  show ?thesis
    unfolding match_version_def join_dot low sp ep
    by (simp add: rel letter_group_Nil post_group_def local_group_def)
qed

lemma ints_of_digits_ok:
  "list_all (\<lambda>d. length d \<le> max_str_digits) ds \<Longrightarrow> ints_of_digits ds = Inr (map nat_of_digits ds)"
  by (induction ds) (simp_all add: int_of_digits_def)

lemma Version_dotted:
  assumes "d \<noteq> []" "list_all is_digit d"
    and "list_all (\<lambda>d. d \<noteq> [] \<and> list_all is_digit d) ds"
    and "list_all (\<lambda>d. length d \<le> max_str_digits) (d # ds)"
  shows "Version (join ''.'' (d # ds)) =
         Inr \<lparr>epoch = 0, release = map nat_of_digits (d # ds), pre = None, post = None, dev = None,
              local_segs = None\<rparr>"
  unfolding Version_def match_version_dotted [OF assms(1-3)]
  using ints_of_digits_ok [OF assms(4)]
  by (simp add: parse_letter_version_def)

lemma int_of_digits_error: "int_of_digits ds = Inl e \<Longrightarrow> e = ValueError"
  by (simp add: int_of_digits_def split: if_splits)

lemma ints_of_digits_error: "ints_of_digits ds = Inl e \<Longrightarrow> e = ValueError"
  by (induction ds arbitrary: e) (auto split: sum.splits dest: int_of_digits_error)

lemma parse_letter_version_error: "parse_letter_version g = Inl e \<Longrightarrow> e = ValueError"
  by (auto simp: parse_letter_version_def split: option.splits sum.splits dest: int_of_digits_error)

lemma parse_local_version_error: "parse_local_version ps = Inl e \<Longrightarrow> e = ValueError"
  by (induction ps arbitrary: e)
     (auto simp: map_sum_def split: sum.splits if_splits dest: int_of_digits_error)

lemma Version_error: "Version v = Inl e \<Longrightarrow> e = InvalidVersion \<or> e = ValueError"
  unfolding Version_def
  by (auto simp: map_sum_def split: option.splits sum.splits
           dest: int_of_digits_error ints_of_digits_error parse_letter_version_error
                 parse_local_version_error)

section \<open>Facts about \<open>parse_version_safe\<close>\<close>

lemma py_int_bound: "py_int s = Some p \<Longrightarrow> \<bar>p\<bar> < 10 ^ max_str_digits"
proof -
  assume a: "py_int s = Some p"
  define t where "t = int_strip s"
  define body where "body = (if t \<noteq> [] \<and> (hd t = CHR ''-'' \<or> hd t = CHR ''+'') then tl t else t)"
  define ds where "ds = filter is_digit body"
  from a have len: "length ds \<le> max_str_digits" and p: "\<bar>p\<bar> = int (nat_of_digits ds)"
    by (auto simp: py_int_def Let_def t_def body_def ds_def split: if_splits)
  have "list_all is_digit ds" by (simp add: ds_def list_all_iff)
  then have "nat_of_digits ds < 10 ^ length ds" by (rule nat_of_digits_bound)
  also have "\<dots> \<le> 10 ^ max_str_digits" using len by (simp add: power_increasing)
  finally have "int (nat_of_digits ds) < 10 ^ max_str_digits"
    by (metis of_nat_less_iff of_nat_numeral of_nat_power)
  with p show ?thesis by simp
qed

lemma int_parts_bound: "p \<in> set (int_parts ps) \<Longrightarrow> \<bar>p\<bar> < 10 ^ max_str_digits"
  by (induction ps) (auto split: option.splits dest: py_int_bound [OF sym])

lemma pad3_bound:
  assumes "\<forall>p\<in>set ns. 0 \<le> p \<and> \<bar>p\<bar> < 10 ^ max_str_digits"
  shows "\<forall>p\<in>set (pad3 ns). 0 \<le> p \<and> \<bar>p\<bar> < 10 ^ max_str_digits"
  using assms by (auto simp: pad3_def)

lemma pad3_nonempty: "pad3 ns \<noteq> []"
  by (cases ns) (simp_all add: pad3_def)

lemma py_str_nonneg:
  assumes "0 \<le> p" "\<bar>p\<bar> < 10 ^ max_str_digits"
  shows "py_str p \<noteq> [] \<and> list_all is_digit (py_str p) \<and> length (py_str p) \<le> max_str_digits
         \<and> nat_of_digits (py_str p) = nat p"
proof -
  have "nat p < 10 ^ max_str_digits"
    using assms by (metis abs_of_nonneg nat_less_iff of_nat_numeral of_nat_power)
  then have "length (dec_digits (nat p)) \<le> max_str_digits"
    by (rule length_dec_digits) (simp add: max_str_digits_def)
  then show ?thesis
    using assms(1) by (simp add: py_str_def dec_digits_nonempty dec_digits_all nat_of_dec_digits)
qed

lemma Version_of_nonneg:
  assumes ns: "ns \<noteq> []" "\<forall>p\<in>set ns. 0 \<le> p \<and> \<bar>p\<bar> < 10 ^ max_str_digits"
  shows "Version (join ''.'' (map py_str ns)) =
         Inr \<lparr>epoch = 0, release = map nat ns, pre = None, post = None, dev = None, local_segs = None\<rparr>"
proof -
  obtain n ns' where n: "ns = n # ns'" using ns(1) by (cases ns) auto
  have all: "\<forall>p\<in>set ns. py_str p \<noteq> [] \<and> list_all is_digit (py_str p)
       \<and> length (py_str p) \<le> max_str_digits \<and> nat_of_digits (py_str p) = nat p"
    using ns(2) py_str_nonneg by blast
  have "Version (join ''.'' (py_str n # map py_str ns')) =
        Inr \<lparr>epoch = 0, release = map nat_of_digits (py_str n # map py_str ns'), pre = None,
             post = None, dev = None, local_segs = None\<rparr>"
    using all n by (intro Version_dotted) (auto simp: list_all_iff)
  moreover have "map nat_of_digits (py_str n # map py_str ns') = map nat ns"
    using all n by auto
  ultimately show ?thesis using n by simp
qed

lemma parse_version_safe_fallback:
  assumes "Version v = Inl InvalidVersion"
    and "\<forall>p\<in>set (int_parts (split_on CHR ''.'' v)). 0 \<le> p"
  shows "parse_version_safe v =
         Inr \<lparr>epoch = 0, release = map nat (pad3 (int_parts (split_on CHR ''.'' v))),
              pre = None, post = None, dev = None, local_segs = None\<rparr>"
proof -
  have "\<forall>p\<in>set (int_parts (split_on CHR ''.'' v)). 0 \<le> p \<and> \<bar>p\<bar> < 10 ^ max_str_digits"
    using assms(2) int_parts_bound by blast
  then have "\<forall>p\<in>set (pad3 (int_parts (split_on CHR ''.'' v))). 0 \<le> p \<and> \<bar>p\<bar> < 10 ^ max_str_digits"
    by (rule pad3_bound)
  then show ?thesis
    using assms(1) Version_of_nonneg [OF pad3_nonempty]
    by (simp add: parse_version_safe_def fallback_str_def)
qed

text \<open>The versions of the examples, evaluated.\<close>

lemmas version_defs =
  parse_version_safe_def Version_def match_version_def skip_space_v_def epoch_group_def
  release_group_def letter_group_def post_group_def local_group_def opt_sep_def is_sep_def
  is_digit_def py_isspace_def ascii_lower_def int_of_digits_def max_str_digits_def
  nat_of_digits_def digit_val_def parse_letter_version_def

lemma Version_examples:
  "Version ''-1'' = Inl InvalidVersion"
  "Version ''-1.0.0'' = Inl InvalidVersion"
  "Version '''' = Inl InvalidVersion"
  "Version ''1.2.x'' = Inl InvalidVersion"
  by (simp_all add: version_defs)

lemma release_only:
  "parse_version_safe ''0.0.0'' = Inr \<lparr>epoch = 0, release = [0, 0, 0], pre = None, post = None, dev = None, local_segs = None\<rparr>"
  "parse_version_safe ''1.0'' = Inr \<lparr>epoch = 0, release = [1, 0], pre = None, post = None, dev = None, local_segs = None\<rparr>"
  "parse_version_safe ''1.1'' = Inr \<lparr>epoch = 0, release = [1, 1], pre = None, post = None, dev = None, local_segs = None\<rparr>"
  "parse_version_safe ''1.2'' = Inr \<lparr>epoch = 0, release = [1, 2], pre = None, post = None, dev = None, local_segs = None\<rparr>"
  "parse_version_safe ''1.3'' = Inr \<lparr>epoch = 0, release = [1, 3], pre = None, post = None, dev = None, local_segs = None\<rparr>"
  "parse_version_safe ''1.2.3'' = Inr \<lparr>epoch = 0, release = [1, 2, 3], pre = None, post = None, dev = None, local_segs = None\<rparr>"
  "parse_version_safe ''1.10.0'' = Inr \<lparr>epoch = 0, release = [1, 10, 0], pre = None, post = None, dev = None, local_segs = None\<rparr>"
  "parse_version_safe ''1.2.40.592'' = Inr \<lparr>epoch = 0, release = [1, 2, 40, 592], pre = None, post = None, dev = None, local_segs = None\<rparr>"
  by (simp_all add: version_defs)

lemma int_parts_examples:
  "int_parts (split_on CHR ''.'' ''-1'') = [- 1]"
  "int_parts (split_on CHR ''.'' '''') = []"
  "int_parts (split_on CHR ''.'' ''1.2.x'') = [1, 2]"
  by (simp_all add: py_int_def int_strip_def int_space_def is_digit_def max_str_digits_def
        nat_of_digits_def digit_val_def)

lemma py_str_examples: "py_str (- 1) = ''-1''" "py_str 0 = ''0''"
  by code_simp+

lemma parse_empty:
  "parse_version_safe '''' = Inr \<lparr>epoch = 0, release = [0, 0, 0], pre = None, post = None, dev = None, local_segs = None\<rparr>"
  using parse_version_safe_fallback [OF Version_examples(3), unfolded int_parts_examples]
  by (simp add: pad3_def numeral_3_eq_3)

lemma parse_minus_one: "parse_version_safe ''-1'' = Inl InvalidVersion"
  unfolding parse_version_safe_def fallback_str_def int_parts_examples
  by (simp add: Version_examples pad3_def py_str_examples numeral_2_eq_2)

lemma key_examples:
  "version_key '''' = Inr (0, [], (2, [], 0), (0, 0), (1, 0), (0, []))"
  "version_key ''0.0.0'' = Inr (0, [], (2, [], 0), (0, 0), (1, 0), (0, []))"
  "version_key ''1.0'' = Inr (0, [1], (2, [], 0), (0, 0), (1, 0), (0, []))"
  "version_key ''1.1'' = Inr (0, [1, 1], (2, [], 0), (0, 0), (1, 0), (0, []))"
  "version_key ''1.2'' = Inr (0, [1, 2], (2, [], 0), (0, 0), (1, 0), (0, []))"
  "version_key ''1.3'' = Inr (0, [1, 3], (2, [], 0), (0, 0), (1, 0), (0, []))"
  "version_key ''1.2.3'' = Inr (0, [1, 2, 3], (2, [], 0), (0, 0), (1, 0), (0, []))"
  "version_key ''1.10.0'' = Inr (0, [1, 10], (2, [], 0), (0, 0), (1, 0), (0, []))"
  "version_key ''1.2.40.592'' = Inr (0, [1, 2, 40, 592], (2, [], 0), (0, 0), (1, 0), (0, []))"
  by (simp_all add: version_key_def cmpkey_def release_only parse_empty)

lemma valid_examples:
  "valid_versions [v1, v2, v3] = [v1, v2, v3]"
  if "{v1, v2, v3} \<subseteq> {''1.2.3'', ''1.10.0'', ''1.2.40.592''}"
  using that by (auto simp: valid_versions_def release_only)

lemma latest_of_three:
  "latest_version [''1.2.3'', ''1.10.0'', ''1.2.40.592''] = Inr (Some ''1.10.0'')"
  "latest_version [''1.2.3'', ''1.2.40.592'', ''1.10.0''] = Inr (Some ''1.10.0'')"
  "latest_version [''1.10.0'', ''1.2.3'', ''1.2.40.592''] = Inr (Some ''1.10.0'')"
  "latest_version [''1.10.0'', ''1.2.40.592'', ''1.2.3''] = Inr (Some ''1.10.0'')"
  "latest_version [''1.2.40.592'', ''1.2.3'', ''1.10.0''] = Inr (Some ''1.10.0'')"
  "latest_version [''1.2.40.592'', ''1.10.0'', ''1.2.3''] = Inr (Some ''1.10.0'')"
  by (simp_all add: latest_version_def valid_examples py_max_def key_examples)

text \<open>A negative part makes the fallback string one that \<open>Version\<close> rejects.\<close>

lemma first_word_minus:
  "first_word [''alpha'', ''a'', ''beta'', ''b'', ''preview'', ''pre'', ''c'', ''rc''] (CHR ''-'' # r) = None"
  "first_word [''post'', ''rev'', ''r''] (CHR ''-'' # r) = None"
  "first_word [''dev''] (CHR ''-'' # r) = None"
  by simp_all

lemma match_version_minus: "match_version (CHR ''-'' # r) = None"
  by (simp add: match_version_def skip_space_v_def py_isspace_def ascii_lower_def epoch_group_def
        is_digit_def release_group_def)

lemma release_segs_dot_minus:
  "list_all (\<lambda>d. d \<noteq> [] \<and> list_all is_digit d) ds \<Longrightarrow>
   release_segs cur (concat (map ((#) CHR ''.'') ds) @ CHR ''.'' # CHR ''-'' # r) =
   (cur # ds, CHR ''.'' # CHR ''-'' # r)"
proof (induction ds arbitrary: cur)
  case Nil
  show ?case by (simp add: is_digit_def)
next
  case (Cons x xs)
  then obtain c x' where x: "x = c # x'" and c: "is_digit c" and x': "list_all is_digit x'"
    by (cases x) auto
  let ?t = "concat (map ((#) CHR ''.'') xs) @ CHR ''.'' # CHR ''-'' # r"
  have "release_segs [] (x @ ?t) = (x # xs, CHR ''.'' # CHR ''-'' # r)"
    using Cons release_segs_digits [of x "[]" ?t] by simp
  then show ?case using x c by (simp add: dot_not_digit)
qed

lemma match_version_dot_minus:
  assumes d: "d \<noteq> []" "list_all is_digit d"
    and ds: "list_all (\<lambda>d. d \<noteq> [] \<and> list_all is_digit d) ds"
  shows "match_version (d @ concat (map ((#) CHR ''.'') ds) @ CHR ''.'' # CHR ''-'' # r) = None"
proof -
  let ?r = "map ascii_lower r"
  let ?tail = "concat (map ((#) CHR ''.'') ds) @ CHR ''.'' # CHR ''-'' # ?r"
  let ?s = "d @ ?tail"
  obtain c d' where dc: "d = c # d'" and c: "is_digit c" and d': "list_all is_digit d'"
    using d by (cases d) auto
  obtain t where t: "?tail = CHR ''.'' # t"
    by (cases ds) simp_all
  have "map ascii_lower (d @ concat (map ((#) CHR ''.'') ds)) = d @ concat (map ((#) CHR ''.'') ds)"
    using d(2) ds by (induction ds) (auto simp: list_all_iff ascii_lower_digit intro!: map_idI)
  then have low: "map ascii_lower (d @ concat (map ((#) CHR ''.'') ds) @ CHR ''.'' # CHR ''-'' # r) = ?s"
    by (simp add: ascii_lower_def)
  have sp: "skip_space_v ?s = ?s"
    using dc c digit_not_v [OF c] by (simp add: skip_space_v_def space_not_digit)
  have dw: "dropWhile is_digit ?s = ?tail"
    unfolding t using d(2) by (simp add: list_all_iff dot_not_digit dropWhile_append)
  have ep: "epoch_group ?s = (None, ?s)"
    unfolding epoch_group_def dw unfolding t by simp
  have rel: "release_group ?s = Some (d # ds, CHR ''.'' # CHR ''-'' # ?r)"
    using release_segs_digits [OF d', of "[c]" ?tail] release_segs_dot_minus [OF ds, of d ?r] dc c
    by (simp add: release_group_def)
  show ?thesis
    unfolding match_version_def low sp ep
    by (simp add: rel letter_group_def opt_sep_def is_sep_def post_group_def local_group_def
          py_isspace_def)
qed

lemma py_str_negative: "p < 0 \<Longrightarrow> \<exists>r. py_str p = CHR ''-'' # r"
  by (simp add: py_str_def)

lemma py_str_digits: "0 \<le> p \<Longrightarrow> py_str p \<noteq> [] \<and> list_all is_digit (py_str p)"
  by (simp add: py_str_def dec_digits_nonempty dec_digits_all)

lemma Version_of_negative:
  assumes "\<exists>p\<in>set ns. p < 0"
  shows "Version (join ''.'' (map py_str ns)) = Inl InvalidVersion"
proof -
  from assms obtain as p bs where ns: "ns = as @ p # bs" and p: "p < 0" and as0: "\<forall>a\<in>set as. \<not> a < 0"
    using split_list_first_prop [of ns "\<lambda>p. p < 0"] by blast
  from as0 have as: "\<forall>a\<in>set as. 0 \<le> a" by (simp add: not_less)
  from py_str_negative [OF p] obtain r where r: "py_str p = CHR ''-'' # r" by blast
  have "match_version (join ''.'' (map py_str ns)) = None"
  proof (cases as)
    case Nil
    then show ?thesis using ns r by (simp add: join_dot match_version_minus)
  next
    case (Cons a as')
    have a: "py_str a \<noteq> []" "list_all is_digit (py_str a)"
      using as Cons py_str_digits [of a] by auto
    have as': "list_all (\<lambda>d. d \<noteq> [] \<and> list_all is_digit d) (map py_str as')"
      using as Cons py_str_digits by (simp add: list_all_iff) blast
    have "join ''.'' (map py_str ns) =
          py_str a @ concat (map ((#) CHR ''.'') (map py_str as')) @ CHR ''.'' # CHR ''-''
            # (r @ concat (map ((#) CHR ''.'') (map py_str bs)))"
      using ns Cons r by (simp add: join_dot)
    then show ?thesis using match_version_dot_minus [OF a as'] by simp
  qed
  then show ?thesis by (simp add: Version_def)
qed

lemma pad3_negative: "\<exists>p\<in>set ns. p < 0 \<Longrightarrow> \<exists>p\<in>set (pad3 ns). p < 0"
  by (auto simp: pad3_def)

lemma parse_version_safe_negative:
  assumes "Version v = Inl InvalidVersion"
    and "\<exists>p\<in>set (int_parts (split_on CHR ''.'' v)). p < 0"
  shows "parse_version_safe v = Inl InvalidVersion"
  using assms(1) Version_of_negative [OF pad3_negative [OF assms(2)]]
  by (simp add: parse_version_safe_def fallback_str_def)

text \<open>
  When \<open>parse_version_safe\<close> returns: for the strings \<open>Version\<close> accepts, and for those it
  rejects as invalid whose parts, read by \<open>int\<close> up to the first that is no integer, are
  not negative.
\<close>

lemma parse_version_safe_returns_iff:
  "(\<exists>x. parse_version_safe v = Inr x) \<longleftrightarrow>
     (\<exists>x. Version v = Inr x)
     \<or> Version v = Inl InvalidVersion \<and> (\<forall>p\<in>set (int_parts (split_on CHR ''.'' v)). 0 \<le> p)"
proof (cases "Version v")
  case (Inr x)
  then show ?thesis by (simp add: parse_version_safe_def)
next
  case (Inl e)
  let ?nonneg = "\<forall>p\<in>set (int_parts (split_on CHR ''.'' v)). 0 \<le> p"
  from Version_error [OF Inl] show ?thesis
  proof
    assume "e = InvalidVersion"
    with Inl have inv: "Version v = Inl InvalidVersion" by simp
    show ?thesis
    proof (cases ?nonneg)
      case True
      with parse_version_safe_fallback [OF inv] inv show ?thesis by simp
    next
      case False
      then have "\<exists>p\<in>set (int_parts (split_on CHR ''.'' v)). p < 0" by (simp add: not_le)
      from parse_version_safe_negative [OF inv this] inv False show ?thesis by simp
    qed
  next
    assume "e = ValueError"
    with Inl show ?thesis by (simp add: parse_version_safe_def)
  qed
qed

section \<open>Facts about \<open>max\<close> and \<open>sort\<close> with a key\<close>

lemma with_keys_snd: "with_keys f xs = Inr kxs \<Longrightarrow> map snd kxs = xs"
  by (induction xs arbitrary: kxs) (auto split: sum.splits)


lemma with_keys_all: "(\<And>x. x \<in> set xs \<Longrightarrow> f x = Inr (g x)) \<Longrightarrow> with_keys f xs = Inr (map (\<lambda>x. (g x, x)) xs)"
  by (induction xs) auto



lemma py_sort_set: "py_sort f xs = Inr ys \<Longrightarrow> set ys = set xs"
proof -
  assume "py_sort f xs = Inr ys"
  then obtain kxs where wk: "with_keys f xs = Inr kxs" and ys: "ys = map snd (sort_key fst kxs)"
    by (auto simp: py_sort_def split: sum.splits)
  have "set ys = snd ` set kxs" unfolding ys by simp
  also have "\<dots> = set (map snd kxs)" by simp
  finally show ?thesis using with_keys_snd [OF wk] by simp
qed

section \<open>Facts about the selection of \<open>cleanup\<close>\<close>

lemma insort_key_tagged:
  "insort_key fst (g x, x) (map (\<lambda>x. (g x, x)) ys) = map (\<lambda>x. (g x, x)) (insort_key g x ys)"
  by (induction ys) simp_all

lemma sort_key_tagged:
  "sort_key fst (map (\<lambda>x. (g x, x)) xs) = map (\<lambda>x. (g x, x)) (sort_key g xs)"
  by (induction xs) (simp_all add: insort_key_tagged)

lemma py_sort_total:
  assumes "\<And>x. x \<in> set xs \<Longrightarrow> f x = Inr (g x)"
  shows "py_sort f xs = Inr (sort_key g xs)"
  by (simp add: py_sort_def with_keys_all [of xs f g, OF assms] sort_key_tagged comp_def)

lemma slice_to_minus_subset: "set (slice_to_minus n xs) \<subseteq> set xs"
  by (auto simp: slice_to_minus_def dest: in_set_takeD)

lemma add_aged_subset: "set (foldl (add_aged now m) acc items) \<subseteq> set acc \<union> set items"
  by (induction items arbitrary: acc) (fastforce simp: add_aged_def split: if_splits)+

lemma add_aged_none:
  "\<forall>item\<in>set items. age_months now (timestamp (snd item)) \<le> m \<Longrightarrow>
   foldl (add_aged now m) acc items = acc"
  by (induction items arbitrary: acc) (simp_all add: add_aged_def)

lemma cleanup_select_unpinned:
  assumes "cleanup_select now max_versions max_age_months vs = Inr dels"
  shows "set dels \<subseteq> {item \<in> set vs. \<not> pinned (snd item)}"
proof (cases "filter (\<lambda>item. \<not> pinned (snd item)) vs = []")
  case True
  with assms show ?thesis by (simp add: cleanup_select_def)
next
  case False
  let ?u = "filter (\<lambda>item. \<not> pinned (snd item)) vs"
  from assms False obtain s where s: "py_sort (\<lambda>item. version_key (fst item)) ?u = Inr s"
    and dels: "dels = foldl (add_aged now max_age_months)
                 (if max_versions < int (length s) then slice_to_minus max_versions s else []) s"
    by (auto simp: cleanup_select_def Let_def split: sum.splits)
  let ?init = "if max_versions < int (length s) then slice_to_minus max_versions s else []"
  have "set dels \<subseteq> set ?init \<union> set s" unfolding dels by (rule add_aged_subset)
  moreover have "set ?init \<subseteq> set s" using slice_to_minus_subset [of max_versions s] by auto
  ultimately have "set dels \<subseteq> set s" by blast
  also have "set s = set ?u" by (rule py_sort_set [OF s])
  finally show ?thesis by auto
qed

text \<open>A list whose keys are sorted is fixed by its set, when the key is injective on it.\<close>

lemma sorted_by_key_unique:
  assumes "sorted (map K ls)" "distinct ls" "set ls = set ms"
    and "sorted (map K ms)" "distinct ms" "inj_on K (set ms)"
  shows "ls = ms"
proof -
  have "distinct (map K ls)" "distinct (map K ms)"
    using assms by (simp_all add: distinct_map)
  moreover have "set (map K ls) = set (map K ms)" using assms(3) by simp
  ultimately have "map K ls = map K ms"
    using assms(1,4) by (intro sorted_distinct_set_unique) 
  moreover have "inj_on K (set ls \<union> set ms)" using assms(3,6) by simp
  ultimately show ?thesis by (simp add: inj_on_map_eq_map)
qed

section \<open>Facts about the state and the downloads directory\<close>

lemma map_of_map_values:
  "map_of (map (\<lambda>(k, v). (k, F k v)) xs) k = map_option (F k) (map_of xs k)"
  by (induction xs) auto

lemma get_entry_record_same: "get_entry (record_entry d pid tv e) pid tv = Some e"
  by (simp add: get_entry_def record_entry_def Let_def update_conv')

lemma get_entry_record_other:
  "(pid', tv') \<noteq> (pid, tv) \<Longrightarrow> get_entry (record_entry d pid tv e) pid' tv' = get_entry d pid' tv'"
  by (auto simp: get_entry_def record_entry_def Let_def update_conv' split: option.splits)

lemma map_of_map_if:
  "map_of (map (\<lambda>(k, v). if k = key then (k, G v) else (k, v)) xs) k' =
   (if k' = key then map_option G (map_of xs key) else map_of xs k')"
  by (induction xs) auto

lemma get_entry_set_file:
  "get_entry (set_file d pid tv f h) pid' tv' =
   (if pid' = pid \<and> tv' = tv
    then map_option (\<lambda>e. e\<lparr>files := AList.update f h (files e)\<rparr>) (get_entry d pid tv)
    else get_entry d pid' tv')"
  unfolding set_file_def get_entry_def map_of_map_if
  by (cases "map_of d pid") (auto simp: map_of_map_if)

lemma get_entry_finish:
  "finish w d pid tv tree = (b, d', tree') \<Longrightarrow> get_entry d' pid' tv' = get_entry d pid' tv'"
  unfolding finish_def
  by (cases "map_of d pid") (auto simp: get_entry_def map_of_map_if split: if_splits)

lemma finish_result:
  "finish w d pid tv tree = (b, d', tree') \<Longrightarrow> tree' = tree \<and> b = (entry_files d pid tv \<noteq> [])"
  by (auto simp: finish_def split: if_splits)

lemma map_of_mkdir:
  "map_of (mkdir dir tree) dir = Some (case map_of tree dir of None \<Rightarrow> [] | Some fs \<Rightarrow> fs)"
  by (simp add: mkdir_def map_add_def split: option.splits)

lemma mkdir_existing: "map_of tree dir = Some fs \<Longrightarrow> mkdir dir tree = tree"
  by (simp add: mkdir_def)

lemma map_of_write_file:
  "map_of (write_file dir name content tree) dir =
   Some (AList.update name content (case map_of tree dir of None \<Rightarrow> [] | Some fs \<Rightarrow> fs))"
  by (simp add: write_file_def update_conv')

lemma resolve_world:
  assumes "package_path w' = package_path w" and "yaml_load w' = yaml_load w"
  shows "resolve w' pid vf = resolve w pid vf"
  unfolding resolve_def load_installers_def assms ..

lemma resolve_names:
  "resolve w pid vf = Inr (Some plan) \<Longrightarrow> split1 CHR ''.'' pid = Some (plan_pub plan, plan_pkg plan)"
  by (auto simp: resolve_def Let_def split: option.splits if_splits sum.splits)

section \<open>Facts about \<open>process_package\<close>\<close>

lemma entry_files_fresh: "entry_files (record_entry d pid tv (fresh_entry w vf)) pid tv = []"
  by (simp add: entry_files_def get_entry_record_same fresh_entry_def)

lemma get_entry_recorded_file:
  "get_entry (set_file (record_entry d pid tv e) pid tv f h) pid tv =
   Some (e\<lparr>files := AList.update f h (files e)\<rparr>)"
  by (simp add: get_entry_set_file get_entry_record_same)

text \<open>The ways through the part that writes, once an installer is chosen.\<close>

lemma materialize_fetch_failed:
  assumes "choose_installer (plan_installers plan) = Some inst" "InstallerUrl inst = Some url"
    and "path_name url \<noteq> []" "path_name url \<noteq> ''..''"
    and "map_of (case map_of tree (plan_pub plan, plan_pkg plan, target_version plan) of
                   None \<Rightarrow> [] | Some fs \<Rightarrow> fs) (path_name url) = None"
    and "requests_get w url = Inl err"
  shows "materialize w tree d pid vf plan =
         Inr (False, record_entry d pid (target_version plan) (fresh_entry w vf),
              mkdir (plan_pub plan, plan_pkg plan, target_version plan) tree)"
  using assms by (simp add: materialize_def Let_def map_of_mkdir)

text \<open>
  The connection breaks while the body is read: the exception leaves the call, the entry
  is the new one without files, and the bytes that arrived are in the file.
\<close>

lemma materialize_interrupted:
  assumes "choose_installer (plan_installers plan) = Some inst" "InstallerUrl inst = Some url"
    and "path_name url \<noteq> []" "path_name url \<noteq> ''..''"
    and "map_of (case map_of tree (plan_pub plan, plan_pkg plan, target_version plan) of
                   None \<Rightarrow> [] | Some fs \<Rightarrow> fs) (path_name url) = None"
    and "requests_get w url = Inr (Interrupted received)"
  shows "materialize w tree d pid vf plan =
         Inl (ChunkedEncodingError, record_entry d pid (target_version plan) (fresh_entry w vf),
              write_file (plan_pub plan, plan_pkg plan, target_version plan) (path_name url) received
                (mkdir (plan_pub plan, plan_pkg plan, target_version plan) tree))"
  using assms by (simp add: materialize_def Let_def map_of_mkdir)

lemma materialize_fetched:
  assumes "choose_installer (plan_installers plan) = Some inst" "InstallerUrl inst = Some url"
    and "path_name url \<noteq> []" "path_name url \<noteq> ''..''"
    and "map_of (case map_of tree (plan_pub plan, plan_pkg plan, target_version plan) of
                   None \<Rightarrow> [] | Some fs \<Rightarrow> fs) (path_name url) = None"
    and "requests_get w url = Inr (Complete content)"
  shows "\<exists>d'. materialize w tree d pid vf plan =
           Inr (True, d',
                write_file (plan_pub plan, plan_pkg plan, target_version plan) (path_name url) content
                  (mkdir (plan_pub plan, plan_pkg plan, target_version plan) tree))
         \<and> get_entry d' pid (target_version plan) =
             Some ((fresh_entry w vf)\<lparr>files := [(path_name url, sha256 w content)]\<rparr>)"
proof -
  let ?tv = "target_version plan"
  let ?d1 = "set_file (record_entry d pid ?tv (fresh_entry w vf)) pid ?tv (path_name url) (sha256 w content)"
  let ?t1 = "write_file (plan_pub plan, plan_pkg plan, ?tv) (path_name url) content
               (mkdir (plan_pub plan, plan_pkg plan, ?tv) tree)"
  have e: "get_entry ?d1 pid ?tv = Some ((fresh_entry w vf)\<lparr>files := [(path_name url, sha256 w content)]\<rparr>)"
    by (simp add: get_entry_recorded_file fresh_entry_def)
  then have f: "entry_files ?d1 pid ?tv \<noteq> []" by (simp add: entry_files_def)
  obtain b d' t' where fin: "finish w ?d1 pid ?tv ?t1 = (b, d', t')" by (cases "finish w ?d1 pid ?tv ?t1") auto
  from finish_result [OF fin] f have "b = True" "t' = ?t1" by simp_all
  moreover have "get_entry d' pid ?tv = get_entry ?d1 pid ?tv" by (rule get_entry_finish [OF fin])
  moreover have "materialize w tree d pid vf plan = Inr (finish w ?d1 pid ?tv ?t1)"
    using assms by (simp add: materialize_def Let_def map_of_mkdir)
  ultimately show ?thesis using e fin by simp
qed

lemma materialize_existing:
  assumes "choose_installer (plan_installers plan) = Some inst" "InstallerUrl inst = Some url"
    and "path_name url \<noteq> []" "path_name url \<noteq> ''..''"
    and "map_of (case map_of tree (plan_pub plan, plan_pkg plan, target_version plan) of
                   None \<Rightarrow> [] | Some fs \<Rightarrow> fs) (path_name url) = Some content"
  shows "\<exists>d'. materialize w tree d pid vf plan =
           Inr (True, d', mkdir (plan_pub plan, plan_pkg plan, target_version plan) tree)
         \<and> get_entry d' pid (target_version plan) =
             Some ((fresh_entry w vf)\<lparr>files := [(path_name url, sha256 w content)]\<rparr>)"
proof -
  let ?tv = "target_version plan"
  let ?d1 = "set_file (record_entry d pid ?tv (fresh_entry w vf)) pid ?tv (path_name url) (sha256 w content)"
  let ?t1 = "mkdir (plan_pub plan, plan_pkg plan, ?tv) tree"
  have e: "get_entry ?d1 pid ?tv = Some ((fresh_entry w vf)\<lparr>files := [(path_name url, sha256 w content)]\<rparr>)"
    by (simp add: get_entry_recorded_file fresh_entry_def)
  then have f: "entry_files ?d1 pid ?tv \<noteq> []" by (simp add: entry_files_def)
  obtain b d' t' where fin: "finish w ?d1 pid ?tv ?t1 = (b, d', t')" by (cases "finish w ?d1 pid ?tv ?t1") auto
  from finish_result [OF fin] f have "b = True" "t' = ?t1" by simp_all
  moreover have "get_entry d' pid ?tv = get_entry ?d1 pid ?tv" by (rule get_entry_finish [OF fin])
  moreover have "materialize w tree d pid vf plan = Inr (finish w ?d1 pid ?tv ?t1)"
    using assms by (simp add: materialize_def Let_def map_of_mkdir entry_files_fresh)
  ultimately show ?thesis using e fin by simp
qed

text \<open>A call that returns \<open>True\<close> went one of the last two ways.\<close>

lemma materialize_True:
  assumes "materialize w tree d pid vf plan = Inr (True, d', tree')"
  shows "\<exists>inst url content fs.
           choose_installer (plan_installers plan) = Some inst \<and> InstallerUrl inst = Some url
           \<and> path_name url \<noteq> [] \<and> path_name url \<noteq> ''..''
           \<and> map_of tree' (plan_pub plan, plan_pkg plan, target_version plan) = Some fs
           \<and> map_of fs (path_name url) = Some content
           \<and> get_entry d' pid (target_version plan) =
               Some ((fresh_entry w vf)\<lparr>files := [(path_name url, sha256 w content)]\<rparr>)"
proof -
  let ?dir = "(plan_pub plan, plan_pkg plan, target_version plan)"
  let ?old = "case map_of tree ?dir of None \<Rightarrow> [] | Some fs \<Rightarrow> fs"
  from assms obtain inst where i: "choose_installer (plan_installers plan) = Some inst"
    by (auto simp: materialize_def Let_def split: option.splits)
  with assms obtain url where u: "InstallerUrl inst = Some url"
    by (auto simp: materialize_def Let_def split: option.splits)
  with assms i have n: "path_name url \<noteq> []" "path_name url \<noteq> ''..''"
    by (auto simp: materialize_def Let_def split: if_splits)
  show ?thesis
  proof (cases "map_of ?old (path_name url)")
    case (Some content)
    from materialize_existing [OF i u n Some, of w d pid vf] assms
    have "tree' = mkdir ?dir tree"
      and "get_entry d' pid (target_version plan) =
             Some ((fresh_entry w vf)\<lparr>files := [(path_name url, sha256 w content)]\<rparr>)"
      by auto
    with i u n Some show ?thesis by (auto simp: map_of_mkdir)
  next
    case None
    show ?thesis
    proof (cases "requests_get w url")
      case (Inl err)
      from materialize_fetch_failed [OF i u n None Inl, of d pid vf] assms show ?thesis by simp
    next
      case (Inr received)
      show ?thesis
      proof (cases received)
        case (Interrupted part)
        with Inr have "requests_get w url = Inr (Interrupted part)" by simp
        from materialize_interrupted [OF i u n None this, of d pid vf] assms show ?thesis by simp
      next
        case (Complete content)
        with Inr have "requests_get w url = Inr (Complete content)" by simp
        from materialize_fetched [OF i u n None this, of d pid vf] assms
        have "tree' = write_file ?dir (path_name url) content (mkdir ?dir tree)"
          and "get_entry d' pid (target_version plan) =
                 Some ((fresh_entry w vf)\<lparr>files := [(path_name url, sha256 w content)]\<rparr>)"
          by auto
        with i u n show ?thesis by (auto simp: map_of_write_file update_conv')
      qed
    qed
  qed
qed

text \<open>Whatever way it goes, the flag \<open>pinned\<close> of the target is the one of this call.\<close>

lemma materialize_pinned:
  assumes "materialize w tree d pid vf plan = Inr (b, d', tree')"
  shows "map_option pinned (get_entry d' pid (target_version plan)) = Some (truthy vf)"
proof -
  let ?tv = "target_version plan"
  let ?d0 = "record_entry d pid ?tv (fresh_entry w vf)"
  define P where "P = (\<lambda>dd. map_option pinned (get_entry dd pid ?tv) = Some (truthy vf))"
  have 0: "P ?d0"
    by (simp add: P_def get_entry_record_same fresh_entry_def)
  have 1: "P (set_file ?d0 pid ?tv f h)" for f h
    by (simp add: P_def get_entry_recorded_file fresh_entry_def)
  have 2: "P dd" if "finish w dx pid ?tv t = (bb, dd, tt)" "P dx" for dx t bb dd tt
    using that get_entry_finish [OF that(1), of pid ?tv] by (simp add: P_def)
  from assms have "P d'"
    unfolding materialize_def Let_def
    by (auto split: option.splits if_splits sum.splits body.splits intro: 0 1 2)
  then show ?thesis by (simp add: P_def)
qed

text \<open>The example package, resolved.\<close>

lemma bar_split: "split1 CHR ''.'' ''Foo.Bar'' = Some (''Foo'', ''Bar'')"
  by (simp add: split1_def)

lemma bar_target:
  "choose_target [''1.2.3''] None = Inr (Some ''1.2.3'')"
  "choose_target [''1.2.3''] (Some ''1.2.3'') = Inr (Some ''1.2.3'')"
  by (simp_all add: choose_target_def py_max_def key_examples)

lemma bar_valid: "valid_versions [''1.2.3''] = [''1.2.3'']"
  by (simp add: valid_versions_def release_only)

lemma bar_texts_differ:
  "bar_installer_text \<noteq> bar_locale_text" "bar_installer_text \<noteq> bar_version_text"
  "bar_locale_text \<noteq> bar_version_text"
  by (simp_all add: bar_installer_text_def bar_locale_text_def bar_version_text_def lines_text_def)

lemma bar_load_files:
  "bar_load bar_installer_text = Some (Mapping bar_installer_manifest)"
  "bar_load bar_locale_text = Some (Mapping bar_locale_manifest)"
  "bar_load bar_version_text = Some (Mapping bar_version_manifest)"
  using bar_texts_differ by (simp_all add: bar_load_def)

lemma bar_world_fields:
  "head_commit (bar_world r) = ''0a1b2c''"
  "now_entry (bar_world r) = stamp 2025 6"
  "now_package (bar_world r) = stamp 2025 6"
  "requests_get (bar_world r) url = r"
  "sha256 (bar_world r) content = ''sha256 of '' @ content"
  "yaml_load (bar_world r) = bar_load"
  "yaml_dump (bar_world r) = bar_dump"
  "package_path (bar_world r) ''Foo'' ''Bar'' = Some [(''1.2.3'', bar_yamls)]"
  by (simp_all add: bar_world_def)

lemma bar_yaml_files:
  "map_of bar_yamls ''Foo.Bar.yaml'' = Some bar_version_text"
  "map_of bar_yamls ''Foo.Bar.installer.yaml'' = Some bar_installer_text"
  "map_of bar_yamls ''Foo.Bar.locale.en-US.yaml'' = Some bar_locale_text"
  by (simp_all add: bar_yamls_def)

lemma bar_load_installers:
  "load_installers (bar_world r) bar_version_text (Some bar_installer_text) = Inr [bar_installer]"
  by (simp add: load_installers_def bar_world_fields bar_load_files get_installers_def
        bar_installer_manifest_def)

lemma bar_resolve:
  "resolve (bar_world r) ''Foo.Bar'' None = Inr (Some bar_plan)"
  "resolve (bar_world r) ''Foo.Bar'' (Some ''1.2.3'') = Inr (Some bar_plan)"
  unfolding resolve_def bar_split
  by (simp_all add: bar_world_fields bar_target bar_valid bar_yaml_files bar_load_installers
        bar_plan_def)

lemma bar_path_name: "path_name ''https://example.com/foo/Bar-1.2.3.exe'' = ''Bar-1.2.3.exe''"
  by (simp add: path_name_def)

lemma bar_choose:
  "choose_installer (plan_installers bar_plan) = Some bar_installer"
  "InstallerUrl bar_installer = Some ''https://example.com/foo/Bar-1.2.3.exe''"
  by (simp_all add: choose_installer_def bar_plan_def bar_installer_def eligible_def truthy_def)

lemma bar_plan_fields:
  "plan_pub bar_plan = ''Foo''" "plan_pkg bar_plan = ''Bar''" "target_version bar_plan = ''1.2.3''"
  by (simp_all add: bar_plan_def)

lemmas bar_run_defs =
  materialize_def Let_def bar_choose bar_path_name bar_plan_fields bar_world_fields
  mkdir_def write_file_def record_entry_def fresh_entry_def set_file_def finish_def
  entry_files_def get_entry_def truthy_def bar_after_def bar_pinned_def
  bar_tree_def bar_dir_def

section \<open>Facts about \<open>patch_repo\<close>\<close>

text \<open>What is written in place of a mapping, spelled out.\<close>

lemma patch_installer_explicit:
  "patch_installer s pu pk v inst =
   inst\<lparr>InstallerUrl :=
          map_option (\<lambda>url. rstrip_slash s @ ''/downloads/'' @ pu @ ''/'' @ pk @ ''/'' @ v @ ''/'' @ path_name url)
            (InstallerUrl inst)\<rparr>"
  by (cases "InstallerUrl inst") (simp_all add: patch_installer_def)

lemma patch_manifest_explicit:
  "patch_manifest s pu pk v m =
   (if ManifestType m = Some ''installer''
    then m\<lparr>Installers :=
             map_option
               (map (\<lambda>inst. inst\<lparr>InstallerUrl :=
                       map_option (\<lambda>url. rstrip_slash s @ ''/downloads/'' @ pu @ ''/'' @ pk @ ''/'' @ v @ ''/''
                                           @ path_name url)
                         (InstallerUrl inst)\<rparr>))
               (Installers m)\<rparr>
    else m)"
  by (cases "Installers m") (simp_all add: patch_manifest_def patch_installer_explicit)

text \<open>The files of one directory.\<close>

lemma patch_files_other:
  "patch_files w s pu pk v yamls target = Inr fs \<Longrightarrow> name \<notin> fst ` set yamls \<Longrightarrow>
   map_of fs name = map_of target name"
proof (induction yamls arbitrary: target)
  case Nil
  then show ?case by simp
next
  case (Cons y yamls)
  obtain n c where y: "y = (n, c)" by (cases y)
  from Cons.prems(1) obtain m where m: "yaml_load w c = Some (Mapping m)"
    and r: "patch_files w s pu pk v yamls (AList.update n (yaml_dump w (patch_manifest s pu pk v m)) target) = Inr fs"
    by (auto simp: y split: option.splits document.splits)
  from Cons.prems(2) have "name \<noteq> n" "name \<notin> fst ` set yamls" by (auto simp: y)
  with Cons.IH [OF r] show ?case by (simp add: update_conv')
qed

lemma patch_files_written:
  "patch_files w s pu pk v yamls target = Inr fs \<Longrightarrow> distinct (map fst yamls) \<Longrightarrow>
   (name, content) \<in> set yamls \<Longrightarrow>
   \<exists>m. yaml_load w content = Some (Mapping m)
        \<and> map_of fs name = Some (yaml_dump w (patch_manifest s pu pk v m))"
proof (induction yamls arbitrary: target)
  case Nil
  then show ?case by simp
next
  case (Cons y yamls)
  obtain n c where y: "y = (n, c)" by (cases y)
  from Cons.prems(1) obtain m where m: "yaml_load w c = Some (Mapping m)"
    and r: "patch_files w s pu pk v yamls (AList.update n (yaml_dump w (patch_manifest s pu pk v m)) target) = Inr fs"
    by (auto simp: y split: option.splits document.splits)
  from Cons.prems(2) have d: "distinct (map fst yamls)" and n: "n \<notin> fst ` set yamls" by (auto simp: y)
  show ?case
  proof (cases "(name, content) = (n, c)")
    case True
    with patch_files_other [OF r n] m show ?thesis by (simp add: update_conv')
  next
    case False
    with Cons.prems(3) have "(name, content) \<in> set yamls" by (auto simp: y)
    from Cons.IH [OF r d this] show ?thesis .
  qed
qed

text \<open>
  A property of one directory of the output that every rewriting of that directory
  establishes holds at the end, if it held at the start or the directory was rewritten.
\<close>

lemma patch_versions_invariant:
  assumes "patch_versions w s out pu pk vs acc = Inr acc'"
    and "P (map_of (snd acc) key)"
    and "\<And>v yamls target fs. source_manifest_dir w pu pk v = Some yamls \<Longrightarrow>
           patch_files w s pu pk v yamls target = Inr fs \<Longrightarrow> (out, pu, pk, v) = key \<Longrightarrow> P (Some fs)"
  shows "P (map_of (snd acc') key)"
  using assms(1,2)
proof (induction vs arbitrary: acc)
  case Nil
  then show ?case by simp
next
  case (Cons v vs)
  show ?case
  proof (cases "source_manifest_dir w pu pk v")
    case None
    with Cons.prems have "patch_versions w s out pu pk vs acc = Inr acc'" by simp
    from Cons.IH [OF this Cons.prems(2)] show ?thesis .
  next
    case (Some yamls)
    let ?target = "case map_of (snd acc) (out, pu, pk, v) of None \<Rightarrow> [] | Some fs \<Rightarrow> fs"
    from Cons.prems(1) Some obtain fs where f: "patch_files w s pu pk v yamls ?target = Inr fs"
      and r: "patch_versions w s out pu pk vs (Suc (fst acc), AList.update (out, pu, pk, v) fs (snd acc)) = Inr acc'"
      by (auto split: sum.splits)
    have "P (map_of (snd (Suc (fst acc), AList.update (out, pu, pk, v) fs (snd acc))) key)"
    proof (cases "(out, pu, pk, v) = key")
      case True
      from assms(3) [OF Some f True] True show ?thesis by (simp add: update_conv')
    next
      case False
      with Cons.prems(2) show ?thesis by (simp add: update_conv')
    qed
    from Cons.IH [OF r this] show ?thesis .
  qed
qed

lemma patch_versions_establishes:
  assumes "patch_versions w s out pu pk vs acc = Inr acc'"
    and "v \<in> set vs"
    and "source_manifest_dir w pu pk v = Some yamls"
    and "\<And>target fs. patch_files w s pu pk v yamls target = Inr fs \<Longrightarrow> P (Some fs)"
  shows "P (map_of (snd acc') (out, pu, pk, v))"
  using assms(1,2)
proof (induction vs arbitrary: acc)
  case Nil
  then show ?case by simp
next
  case (Cons v' vs)
  have step: "P (Some fs)"
    if "source_manifest_dir w pu pk x = Some ys" "patch_files w s pu pk x ys target = Inr fs"
      "(out, pu, pk, x) = (out, pu, pk, v)" for x ys target fs
    using that assms(3,4) by simp
  show ?case
  proof (cases "v' = v")
    case True
    let ?target = "case map_of (snd acc) (out, pu, pk, v) of None \<Rightarrow> [] | Some fs \<Rightarrow> fs"
    from Cons.prems(1) True assms(3) obtain fs where f: "patch_files w s pu pk v yamls ?target = Inr fs"
      and r: "patch_versions w s out pu pk vs (Suc (fst acc), AList.update (out, pu, pk, v) fs (snd acc)) = Inr acc'"
      by (auto split: sum.splits)
    have "P (map_of (snd (Suc (fst acc), AList.update (out, pu, pk, v) fs (snd acc))) (out, pu, pk, v))"
      using assms(4) [OF f] by (simp add: update_conv')
    from patch_versions_invariant [where P = P and key = "(out, pu, pk, v)", OF r this step]
    show ?thesis .
  next
    case False
    with Cons.prems(2) have v: "v \<in> set vs" by simp
    show ?thesis
    proof (cases "source_manifest_dir w pu pk v'")
      case None
      with Cons.prems(1) have "patch_versions w s out pu pk vs acc = Inr acc'" by simp
      from Cons.IH [OF this v] show ?thesis .
    next
      case (Some ys)
      from Cons.prems(1) Some obtain fs
        where "patch_versions w s out pu pk vs (Suc (fst acc), AList.update (out, pu, pk, v') fs (snd acc)) = Inr acc'"
        by (auto split: sum.splits)
      from Cons.IH [OF this v] show ?thesis .
    qed
  qed
qed

lemma patch_packages_invariant:
  assumes "patch_packages w s out d acc = Inr acc'"
    and "P (map_of (snd acc) key)"
    and "\<And>pu pk v yamls target fs. source_manifest_dir w pu pk v = Some yamls \<Longrightarrow>
           patch_files w s pu pk v yamls target = Inr fs \<Longrightarrow> (out, pu, pk, v) = key \<Longrightarrow> P (Some fs)"
  shows "P (map_of (snd acc') key)"
  using assms(1,2)
proof (induction d arbitrary: acc)
  case Nil
  then show ?case by simp
next
  case (Cons x d)
  obtain pid info where x: "x = (pid, info)" by (cases x)
  from Cons.prems(1) obtain pu pk acc1 where "split1 CHR ''.'' pid = Some (pu, pk)"
    and v: "patch_versions w s out pu pk (map fst (versions info)) acc = Inr acc1"
    and r: "patch_packages w s out d acc1 = Inr acc'"
    by (auto simp: x split: option.splits if_splits sum.splits)
  have "P (map_of (snd acc1) key)"
    by (rule patch_versions_invariant [where P = P and key = key, OF v Cons.prems(2)]) (rule assms(3))
  from Cons.IH [OF r this] show ?case .
qed

lemma patch_packages_establishes:
  assumes "patch_packages w s out d acc = Inr acc'"
    and "(pid, info) \<in> set d"
    and "split1 CHR ''.'' pid = Some (pu, pk)"
    and "v \<in> fst ` set (versions info)"
    and "source_manifest_dir w pu pk v = Some yamls"
    and "\<And>target fs. patch_files w s pu pk v yamls target = Inr fs \<Longrightarrow> P (Some fs)"
  shows "P (map_of (snd acc') (out, pu, pk, v))"
  using assms(1,2)
proof (induction d arbitrary: acc)
  case Nil
  then show ?case by simp
next
  case (Cons x d)
  obtain pid' info' where x: "x = (pid', info')" by (cases x)
  from Cons.prems(1) obtain pu' pk' acc1 where s': "split1 CHR ''.'' pid' = Some (pu', pk')"
    and v: "patch_versions w s out pu' pk' (map fst (versions info')) acc = Inr acc1"
    and r: "patch_packages w s out d acc1 = Inr acc'"
    by (auto simp: x split: option.splits if_splits sum.splits)
  have step: "P (Some fs)"
    if "source_manifest_dir w a b c = Some ys" "patch_files w s a b c ys target = Inr fs"
      "(out, a, b, c) = (out, pu, pk, v)" for a b c ys target fs
    using that assms(5,6) by simp
  show ?case
  proof (cases "(pid, info) = x")
    case True
    with x s' assms(3) have same: "pu' = pu" "pk' = pk" "info' = info" by simp_all
    from assms(4) have "v \<in> set (map fst (versions info))" by simp
    from patch_versions_establishes [where P = P, OF v [unfolded same] this assms(5,6)]
    have "P (map_of (snd acc1) (out, pu, pk, v))" .
    from patch_packages_invariant [where P = P and key = "(out, pu, pk, v)", OF r this step]
    show ?thesis .
  next
    case False
    with Cons.prems(2) have "(pid, info) \<in> set d" by auto
    from Cons.IH [OF r this] show ?thesis .
  qed
qed

text \<open>The example package, patched for the mirror at \<open>https://mirror.local\<close>.\<close>

lemma bar_patch_manifest:
  "rstrip_slash s = ''https://mirror.local'' \<Longrightarrow>
   patch_manifest s ''Foo'' ''Bar'' ''1.2.3'' bar_installer_manifest =
   bar_installer_manifest\<lparr>Installers := Some [bar_installer_patched]\<rparr>"
  "patch_manifest s ''Foo'' ''Bar'' ''1.2.3'' bar_locale_manifest = bar_locale_manifest"
  "patch_manifest s ''Foo'' ''Bar'' ''1.2.3'' bar_version_manifest = bar_version_manifest"
  by (simp_all add: patch_manifest_def patch_installer_def bar_installer_manifest_def
        bar_locale_manifest_def bar_version_manifest_def bar_installer_def bar_installer_patched_def
        bar_path_name)

lemma bar_dump_files:
  "bar_dump (bar_installer_manifest\<lparr>Installers := Some [bar_installer_patched]\<rparr>) = bar_installer_dump"
  "bar_dump bar_locale_manifest = bar_locale_dump"
  "bar_dump bar_version_manifest = bar_version_dump"
  by (simp_all add: bar_dump_def bar_installer_manifest_def bar_locale_manifest_def
        bar_version_manifest_def)

lemma bar_source: "source_manifest_dir (bar_world r) ''Foo'' ''Bar'' ''1.2.3'' = Some bar_yamls"
  by (simp add: source_manifest_dir_def bar_world_fields)

lemma bar_patch_files:
  "rstrip_slash s = ''https://mirror.local'' \<Longrightarrow>
   patch_files (bar_world r) s ''Foo'' ''Bar'' ''1.2.3'' bar_yamls [] =
   Inr [(''Foo.Bar.installer.yaml'', bar_installer_dump),
        (''Foo.Bar.locale.en-US.yaml'', bar_locale_dump),
        (''Foo.Bar.yaml'', bar_version_dump)]"
  by (simp add: bar_yamls_def bar_world_fields bar_load_files bar_patch_manifest bar_dump_files)

lemma bar_patch_repo:
  assumes "rstrip_slash s = ''https://mirror.local''"
  shows "patch_repo (bar_world r) default_config (mirror_state (bar_after True)) (Some s) None [] =
         Inr (1, [((''patched-manifests'', ''Foo'', ''Bar'', ''1.2.3''),
                   [(''Foo.Bar.installer.yaml'', bar_installer_dump),
                    (''Foo.Bar.locale.en-US.yaml'', bar_locale_dump),
                    (''Foo.Bar.yaml'', bar_version_dump)])])"
proof -
  from assms have "s \<noteq> []" by (auto simp: rstrip_slash_def)
  then show ?thesis
    by (simp add: patch_repo_def mirror_state_def bar_after_def default_config_def py_or_def
          truthy_def bar_split bar_source bar_patch_files [OF assms])
qed

lemma mirror_local:
  "rstrip_slash ''https://mirror.local'' = ''https://mirror.local''"
  "rstrip_slash ''https://mirror.local/'' = ''https://mirror.local''"
  by (simp_all add: rstrip_slash_def)

section \<open>The claims\<close>

text \<open>
  C1, as it is written: when the file is not there and the fetch fails, the state of the
  package is afterwards what it was before. It is not: the entry of the target version is
  written anew before the fetch. Here 1.2.3 was recorded with a file, the request is
  answered with an HTTP error, and after the call the version is recorded with no file
  and with the time of the call.
\<close>

theorem failed_fetch_resets_entry:
  "get_entry bar_pinned ''Foo.Bar'' ''1.2.3'' =
     Some \<lparr>git_rev = ''0a1b2c'', files = [(''Bar-1.2.3.exe'', ''sha256 of setup'')],
           timestamp = stamp 2025 1, pinned = True\<rparr>
   \<and> process_package (bar_world (Inl HTTPError)) [] bar_pinned ''Foo.Bar'' (Some ''1.2.3'') =
       Inr (False,
            [(''Foo.Bar'',
              \<lparr>versions = [(''1.2.3'', \<lparr>git_rev = ''0a1b2c'', files = [], timestamp = stamp 2025 6,
                                        pinned = True\<rparr>)],
               package_timestamp = Some (stamp 2025 1)\<rparr>)],
            [((''Foo'', ''Bar'', ''1.2.3''), [])])"
  unfolding process_package_def bar_resolve by (simp add: bar_run_defs)

text \<open>
  C1, amended: when the file is not there and \<open>requests.get\<close> or \<open>raise_for_status\<close>
  raises (the transport and HTTP-status errors that the call catches), the call returns
  \<open>False\<close> and records no file: the entry of the target version is the one written
  before the fetch, with no files, the time of the call and \<open>pinned\<close> as this call asks for
  it, in place of an earlier entry of that version. The entries of the other versions and
  of the other packages are what they were before, and no file is written.
\<close>

theorem failed_fetch_records_no_file:
  assumes "resolve w pid vf = Inr (Some plan)"
    and "choose_installer (plan_installers plan) = Some inst"
    and "InstallerUrl inst = Some url"
    and "path_name url \<noteq> []" and "path_name url \<noteq> ''..''"
    and "map_of (case map_of tree (plan_pub plan, plan_pkg plan, target_version plan) of
                   None \<Rightarrow> [] | Some fs \<Rightarrow> fs) (path_name url) = None"
    and "requests_get w url = Inl err"
  shows "\<exists>d'. process_package w tree d pid vf =
                 Inr (False, d', mkdir (plan_pub plan, plan_pkg plan, target_version plan) tree)
          \<and> get_entry d' pid (target_version plan) =
              Some \<lparr>git_rev = head_commit w, files = [], timestamp = now_entry w, pinned = truthy vf\<rparr>
          \<and> (\<forall>pid' tv'. (pid', tv') \<noteq> (pid, target_version plan) \<longrightarrow>
                 get_entry d' pid' tv' = get_entry d pid' tv')"
proof -
  have "process_package w tree d pid vf =
        Inr (False, record_entry d pid (target_version plan) (fresh_entry w vf),
             mkdir (plan_pub plan, plan_pkg plan, target_version plan) tree)"
    using materialize_fetch_failed [OF assms(2-7), of d pid vf] assms(1)
    by (simp add: process_package_def)
  then show ?thesis
    by (auto simp: get_entry_record_same get_entry_record_other fresh_entry_def)
qed

theorem failed_fetch_records_no_file_witness:
  "resolve (bar_world (Inl HTTPError)) ''Foo.Bar'' None = Inr (Some bar_plan)
   \<and> requests_get (bar_world (Inl HTTPError)) ''https://example.com/foo/Bar-1.2.3.exe'' = Inl HTTPError
   \<and> (\<exists>d'. process_package (bar_world (Inl HTTPError)) [] bar_pinned ''Foo.Bar'' None =
              Inr (False, d', mkdir bar_dir [])
          \<and> get_entry d' ''Foo.Bar'' ''1.2.3'' =
              Some \<lparr>git_rev = ''0a1b2c'', files = [], timestamp = stamp 2025 6, pinned = False\<rparr>)"
proof -
  let ?w = "bar_world (Inl HTTPError)"
  have a: "path_name ''https://example.com/foo/Bar-1.2.3.exe'' \<noteq> []"
    and b: "path_name ''https://example.com/foo/Bar-1.2.3.exe'' \<noteq> ''..''"
    and c: "map_of (case map_of [] (plan_pub bar_plan, plan_pkg bar_plan, target_version bar_plan) of
                      None \<Rightarrow> [] | Some fs \<Rightarrow> fs)
              (path_name ''https://example.com/foo/Bar-1.2.3.exe'') = None"
    and d: "requests_get ?w ''https://example.com/foo/Bar-1.2.3.exe'' = Inl HTTPError"
    by (simp_all add: bar_path_name bar_world_fields)
  from failed_fetch_records_no_file [OF bar_resolve(1) bar_choose a b c d, of bar_pinned]
  show ?thesis
    using bar_resolve(1) [of "Inl HTTPError"] d
    by (auto simp: bar_plan_fields bar_dir_def bar_world_fields truthy_def)
qed

text \<open>
  C2, as it is written: after a first call that succeeds, a second call with the same
  version returns \<open>updated = false\<close>. The code returns \<open>True\<close> whenever the entry holds a
  file, fetched by this call or not: here the first call fetches the installer, and the
  second, on the state and the directory the first has left, returns \<open>True\<close> again.
\<close>

theorem second_download_reports_update:
  "process_package (bar_world (Inr (Complete ''setup''))) [] [] ''Foo.Bar'' (Some ''1.2.3'') =
     Inr (True, bar_after True, bar_tree)
   \<and> process_package (bar_world (Inr (Complete ''setup''))) bar_tree (bar_after True) ''Foo.Bar'' (Some ''1.2.3'') =
     Inr (True, bar_after True, bar_tree)"
  unfolding process_package_def bar_resolve by (simp add: bar_run_defs)

text \<open>
  C2, amended: after a call that returns \<open>True\<close>, a second call for the same package and
  version, with the repository and the directory as the first call left them, fetches
  nothing, leaves the directory as it is, records the same checksums, and returns
  \<open>True\<close>: the value says that the version has a recorded file, not that this call
  fetched one. (The clock and the network may differ between the calls.)
\<close>

theorem second_download_same_checksums:
  assumes "resolve w pid vf = Inr (Some plan)"
    and "process_package w tree d pid vf = Inr (True, d1, tree1)"
  shows "\<exists>d2. process_package (w\<lparr>requests_get := g, now_entry := t, now_package := t'\<rparr>) tree1 d1 pid vf =
                 Inr (True, d2, tree1)
          \<and> entry_files d2 pid (target_version plan) = entry_files d1 pid (target_version plan)"
proof -
  let ?w = "w\<lparr>requests_get := g, now_entry := t, now_package := t'\<rparr>"
  let ?dir = "(plan_pub plan, plan_pkg plan, target_version plan)"
  from assms have "materialize w tree d pid vf plan = Inr (True, d1, tree1)"
    by (simp add: process_package_def)
  from materialize_True [OF this] obtain inst url content fs
    where i: "choose_installer (plan_installers plan) = Some inst" and u: "InstallerUrl inst = Some url"
      and n: "path_name url \<noteq> []" "path_name url \<noteq> ''..''"
      and dir: "map_of tree1 ?dir = Some fs" and fc: "map_of fs (path_name url) = Some content"
      and e1: "get_entry d1 pid (target_version plan) =
                 Some ((fresh_entry w vf)\<lparr>files := [(path_name url, sha256 w content)]\<rparr>)"
    by blast
  have r: "resolve ?w pid vf = Inr (Some plan)"
    using assms(1) resolve_world [of ?w w pid vf] by simp
  have "map_of (case map_of tree1 ?dir of None \<Rightarrow> [] | Some fs \<Rightarrow> fs) (path_name url) = Some content"
    using dir fc by simp
  from materialize_existing [OF i u n this, of ?w d1 pid vf] obtain d2
    where m: "materialize ?w tree1 d1 pid vf plan = Inr (True, d2, mkdir ?dir tree1)"
      and e2: "get_entry d2 pid (target_version plan) =
                 Some ((fresh_entry ?w vf)\<lparr>files := [(path_name url, sha256 ?w content)]\<rparr>)"
    by blast
  have "process_package ?w tree1 d1 pid vf = Inr (True, d2, tree1)"
    using r m mkdir_existing [OF dir] by (simp add: process_package_def)
  moreover have "entry_files d2 pid (target_version plan) = entry_files d1 pid (target_version plan)"
    using e1 e2 by (simp add: entry_files_def)
  ultimately show ?thesis by blast
qed

theorem second_download_same_checksums_witness:
  "resolve (bar_world (Inr (Complete ''setup''))) ''Foo.Bar'' (Some ''1.2.3'') = Inr (Some bar_plan)
   \<and> process_package (bar_world (Inr (Complete ''setup''))) [] [] ''Foo.Bar'' (Some ''1.2.3'') =
       Inr (True, bar_after True, bar_tree)
   \<and> (\<exists>d2. process_package
               ((bar_world (Inr (Complete ''setup'')))
                  \<lparr>requests_get := \<lambda>url. Inl RequestException, now_entry := stamp 2025 7,
                   now_package := stamp 2025 7\<rparr>)
               bar_tree (bar_after True) ''Foo.Bar'' (Some ''1.2.3'') =
             Inr (True, d2, bar_tree)
          \<and> entry_files d2 ''Foo.Bar'' ''1.2.3'' = [(''Bar-1.2.3.exe'', ''sha256 of setup'')])"
proof -
  have a: "process_package (bar_world (Inr (Complete ''setup''))) [] [] ''Foo.Bar'' (Some ''1.2.3'') =
       Inr (True, bar_after True, bar_tree)"
    unfolding process_package_def bar_resolve by (simp add: bar_run_defs)
  have b: "entry_files (bar_after True) ''Foo.Bar'' ''1.2.3'' = [(''Bar-1.2.3.exe'', ''sha256 of setup'')]"
    by (simp add: entry_files_def get_entry_def bar_after_def)
  from second_download_same_checksums [OF bar_resolve(2) a,
         where g = "\<lambda>url. Inl RequestException" and t = "stamp 2025 7" and t' = "stamp 2025 7"]
  show ?thesis using bar_resolve(2) [of "Inr (Complete ''setup'')"] a b by (simp add: bar_plan_fields)
qed

text \<open>
  C3, as it is written: a call without a version does not clear the pin of a version that
  is pinned. It does: 1.2.3 is pinned, it is also the latest, and after a call without a
  version its entry has \<open>pinned = False\<close>.
\<close>

theorem unpinned_call_clears_pin:
  "map_option pinned (get_entry bar_pinned ''Foo.Bar'' ''1.2.3'') = Some True
   \<and> process_package (bar_world (Inr (Complete ''setup''))) bar_tree bar_pinned ''Foo.Bar'' None =
       Inr (True, bar_after False, bar_tree)
   \<and> map_option pinned (get_entry (bar_after False) ''Foo.Bar'' ''1.2.3'') = Some False"
  unfolding process_package_def bar_resolve by (simp add: bar_run_defs)

text \<open>
  C3, amended: every call that gets as far as its target version writes the entry of that
  version anew, and \<open>pinned\<close> in it says whether this call named a version; what the flag
  was before does not matter.
\<close>

theorem pinned_follows_last_call:
  assumes "resolve w pid vf = Inr (Some plan)"
    and "process_package w tree d pid vf = Inr (b, d', tree')"
  shows "map_option pinned (get_entry d' pid (target_version plan)) = Some (truthy vf)"
  using assms materialize_pinned [of w tree d pid vf plan b d' tree']
  by (simp add: process_package_def)

theorem pinned_follows_last_call_witness:
  "resolve (bar_world (Inr (Complete ''setup''))) ''Foo.Bar'' None = Inr (Some bar_plan)
   \<and> process_package (bar_world (Inr (Complete ''setup''))) bar_tree bar_pinned ''Foo.Bar'' None =
       Inr (True, bar_after False, bar_tree)
   \<and> map_option pinned (get_entry (bar_after False) ''Foo.Bar'' (target_version bar_plan)) = Some (truthy None)"
proof -
  have a: "process_package (bar_world (Inr (Complete ''setup''))) bar_tree bar_pinned ''Foo.Bar'' None =
       Inr (True, bar_after False, bar_tree)"
    unfolding process_package_def bar_resolve by (simp add: bar_run_defs)
  from pinned_follows_last_call [OF bar_resolve(1) a] bar_resolve(1) [of "Inr (Complete ''setup'')"] a
  show ?thesis by blast
qed

text \<open>
  C4, as it is written: a file whose hash differs from the hash the manifest declares is
  recorded, and \<open>verify\<close> then reports it as a mismatch and the package as not valid. The
  first half holds. The second does not: \<open>validate_hashes\<close> compares the file with the hash
  that was recorded, the computed one, and never reads the manifest. Here the manifest
  declares \<open>0F0F\<close>, the download records the hash of the content, and the report is a match.
\<close>

theorem declared_hash_mismatch_verifies:
  "hash_mismatch (InstallerSha256 bar_installer) (sha256 (bar_world (Inr (Complete ''setup''))) ''setup'')
   \<and> download (bar_world (Inr (Complete ''setup''))) [] (mirror_state []) bar_package None =
       Inr (True, mirror_state (bar_after False), bar_tree)
   \<and> validate_hashes (sha256 (bar_world (Inr (Complete ''setup'')))) bar_tree (mirror_state (bar_after False))
         bar_package =
       \<lparr>valid = True, error = None,
        version_reports =
          [(''1.2.3'',
            \<lparr>version_valid = True,
             file_results =
               [(''Bar-1.2.3.exe'',
                 \<lparr>status = MATCH, expected = ''sha256 of setup'', computed = ''sha256 of setup''\<rparr>)],
             missing_files = [], unexpected_files = {}\<rparr>)]\<rparr>"
proof -
  have "hash_mismatch (InstallerSha256 bar_installer) (sha256 (bar_world (Inr (Complete ''setup''))) ''setup'')"
    by (simp add: hash_mismatch_def bar_installer_def bar_world_fields)
  moreover have "download (bar_world (Inr (Complete ''setup''))) [] (mirror_state []) bar_package None =
       Inr (True, mirror_state (bar_after False), bar_tree)"
    unfolding download_def process_package_def
    by (simp add: mirror_state_def bar_package_def bar_resolve) (simp add: bar_run_defs mirror_state_def)
  moreover have "validate_hashes (sha256 (bar_world (Inr (Complete ''setup'')))) bar_tree (mirror_state (bar_after False))
         bar_package =
       \<lparr>valid = True, error = None,
        version_reports =
          [(''1.2.3'',
            \<lparr>version_valid = True,
             file_results =
               [(''Bar-1.2.3.exe'',
                 \<lparr>status = MATCH, expected = ''sha256 of setup'', computed = ''sha256 of setup''\<rparr>)],
             missing_files = [], unexpected_files = {}\<rparr>)]\<rparr>"
    by (simp add: validate_hashes_def validate_version_def check_file_def mirror_state_def
          bar_after_def bar_package_def bar_tree_def bar_dir_def bar_world_fields)
  ultimately show ?thesis by blast
qed

text \<open>
  C4, amended: when a file that is fetched has a hash other than the one the manifest
  declares, the download succeeds all the same and records the file with the hash that
  was computed; \<open>validate_hashes\<close>, run on the state and the directory the download left,
  reports that file as a match and the version as valid, with no missing file.
\<close>

theorem mismatch_recorded_then_match:
  assumes "WingetPackage pid = Inr p"
    and "resolve w pid vf = Inr (Some plan)"
    and "choose_installer (plan_installers plan) = Some inst"
    and "InstallerUrl inst = Some url"
    and "path_name url \<noteq> []" and "path_name url \<noteq> ''..''"
    and "map_of (case map_of tree (plan_pub plan, plan_pkg plan, target_version plan) of
                   None \<Rightarrow> [] | Some fs \<Rightarrow> fs) (path_name url) = None"
    and "requests_get w url = Inr (Complete content)"
    and "hash_mismatch (InstallerSha256 inst) (sha256 w content)"
  shows "\<exists>st' tree' r.
           download w tree st p vf = Inr (True, st', tree')
           \<and> entry_files (case downloads st' of None \<Rightarrow> [] | Some d \<Rightarrow> d) pid (target_version plan) =
               [(path_name url, sha256 w content)]
           \<and> map_of (version_reports (validate_hashes (sha256 w) tree' st' p)) (target_version plan) = Some r
           \<and> version_valid r
           \<and> file_results r =
               [(path_name url,
                 \<lparr>status = MATCH, expected = sha256 w content, computed = sha256 w content\<rparr>)]
           \<and> missing_files r = []"
proof -
  let ?tv = "target_version plan"
  let ?dir = "(plan_pub plan, plan_pkg plan, ?tv)"
  let ?d = "case downloads st of None \<Rightarrow> [] | Some d \<Rightarrow> d"
  let ?tree' = "write_file ?dir (path_name url) content (mkdir ?dir tree)"
  let ?e = "(fresh_entry w vf)\<lparr>files := [(path_name url, sha256 w content)]\<rparr>"
  from resolve_names [OF assms(2)] assms(1)
  have p: "package_id p = pid" "pub p = plan_pub plan" "pkg p = plan_pkg plan"
    by (auto simp: WingetPackage_def)
  from materialize_fetched [OF assms(3-8), of ?d pid vf] obtain d'
    where m: "materialize w tree ?d pid vf plan = Inr (True, d', ?tree')"
      and e: "get_entry d' pid ?tv = Some ?e"
    by blast
  let ?st' = "st\<lparr>downloads := Some d'\<rparr>"
  have dl: "download w tree st p vf = Inr (True, ?st', ?tree')"
    using m assms(2) by (simp add: download_def process_package_def p)
  have ef: "entry_files (case downloads ?st' of None \<Rightarrow> [] | Some d \<Rightarrow> d) pid ?tv =
              [(path_name url, sha256 w content)]"
    using e by (simp add: entry_files_def)
  from e obtain info where info: "map_of d' pid = Some info" and v: "map_of (versions info) ?tv = Some ?e"
    by (auto simp: get_entry_def split: option.splits)
  let ?fs = "AList.update (path_name url) content (case map_of (mkdir ?dir tree) ?dir of None \<Rightarrow> [] | Some fs \<Rightarrow> fs)"
  have t: "map_of ?tree' (pub p, pkg p, ?tv) = Some ?fs"
    by (simp add: p map_of_write_file)
  have f: "map_of ?fs (path_name url) = Some content"
    by (simp add: update_conv')
  let ?r = "validate_version (sha256 w) ?tree' p ?tv ?e"
  have rep: "map_of (version_reports (validate_hashes (sha256 w) ?tree' ?st' p)) ?tv = Some ?r"
    using info v by (simp add: validate_hashes_def Let_def p map_of_map_values)
  have r: "version_valid ?r
           \<and> file_results ?r =
               [(path_name url, \<lparr>status = MATCH, expected = sha256 w content, computed = sha256 w content\<rparr>)]
           \<and> missing_files ?r = []"
    unfolding validate_version_def Let_def t using f by (simp add: check_file_def)
  from dl ef rep r show ?thesis by blast
qed

theorem mismatch_recorded_then_match_witness:
  "WingetPackage ''Foo.Bar'' = Inr bar_package
   \<and> requests_get (bar_world (Inr (Complete ''setup''))) ''https://example.com/foo/Bar-1.2.3.exe'' = Inr (Complete ''setup'')
   \<and> hash_mismatch (InstallerSha256 bar_installer) (sha256 (bar_world (Inr (Complete ''setup''))) ''setup'')
   \<and> (\<exists>st' tree' r.
         download (bar_world (Inr (Complete ''setup''))) [] (mirror_state []) bar_package None = Inr (True, st', tree')
         \<and> map_of (version_reports (validate_hashes (sha256 (bar_world (Inr (Complete ''setup'')))) tree' st' bar_package))
              ''1.2.3'' = Some r
         \<and> version_valid r
         \<and> file_results r =
             [(''Bar-1.2.3.exe'',
               \<lparr>status = MATCH, expected = ''sha256 of setup'', computed = ''sha256 of setup''\<rparr>)]
         \<and> missing_files r = [])"
proof -
  let ?w = "bar_world (Inr (Complete ''setup''))"
  let ?url = "''https://example.com/foo/Bar-1.2.3.exe''"
  have p: "WingetPackage ''Foo.Bar'' = Inr bar_package"
    by (simp add: WingetPackage_def bar_split bar_package_def)
  have a: "path_name ?url \<noteq> []" and b: "path_name ?url \<noteq> ''..''"
    and c: "map_of (case map_of [] (plan_pub bar_plan, plan_pkg bar_plan, target_version bar_plan) of
                      None \<Rightarrow> [] | Some fs \<Rightarrow> fs) (path_name ?url) = None"
    and d: "requests_get ?w ?url = Inr (Complete ''setup'')"
    by (simp_all add: bar_path_name bar_world_fields)
  have h: "hash_mismatch (InstallerSha256 bar_installer) (sha256 ?w ''setup'')"
    by (simp add: hash_mismatch_def bar_installer_def bar_world_fields)
  from mismatch_recorded_then_match [OF p bar_resolve(1) bar_choose a b c d h, of "mirror_state []"]
  show ?thesis using p d h by (simp add: bar_plan_fields bar_path_name bar_world_fields) blast
qed

text \<open>
  C5: in a package whose versions are exactly 1.0, 1.1, 1.2 and 1.3, none pinned and none
  older than the age threshold, \<open>cleanup\<close> with at most 2 unpinned versions selects 1.0 and
  1.1 and nothing else, in whatever order the state lists the versions. And in every
  package, whatever the thresholds and the ages, a pinned version is not selected.
\<close>

theorem cleanup_select_retention:
  "(distinct (map fst vs) \<and> fst ` set vs = {''1.0'', ''1.1'', ''1.2'', ''1.3''}
      \<and> (\<forall>item\<in>set vs. \<not> pinned (snd item) \<and> age_months now (timestamp (snd item)) \<le> max_age)
      \<longrightarrow> (\<exists>dels. cleanup_select now 2 max_age vs = Inr dels \<and> fst ` set dels = {''1.0'', ''1.1''}))
   \<and> (distinct (map fst ws) \<and> map_of ws v = Some e \<and> pinned e
        \<and> cleanup_select now' max_versions max_age' ws = Inr dels'
      \<longrightarrow> v \<notin> fst ` set dels')"
proof -
  have retention: "\<exists>dels. cleanup_select now 2 max_age vs = Inr dels \<and> fst ` set dels = {''1.0'', ''1.1''}"
    if d: "distinct (map fst vs)" and L: "fst ` set vs = {''1.0'', ''1.1'', ''1.2'', ''1.3''}"
      and u: "\<forall>item\<in>set vs. \<not> pinned (snd item) \<and> age_months now (timestamp (snd item)) \<le> max_age"
  proof -
    define K where "K = (\<lambda>l. case version_key l of Inr k \<Rightarrow> k | Inl _ \<Rightarrow> (0, [], (0, [], 0), (0, 0), (0, 0), (0, [])))"
    let ?ms = "[''1.0'', ''1.1'', ''1.2'', ''1.3'']"
    have K: "K ''1.0'' = (0, [1], (2, [], 0), (0, 0), (1, 0), (0, []))"
      "K ''1.1'' = (0, [1, 1], (2, [], 0), (0, 0), (1, 0), (0, []))"
      "K ''1.2'' = (0, [1, 2], (2, [], 0), (0, 0), (1, 0), (0, []))"
      "K ''1.3'' = (0, [1, 3], (2, [], 0), (0, 0), (1, 0), (0, []))"
      by (simp_all add: K_def key_examples)
    have key: "version_key (fst item) = Inr (K (fst item))" if "item \<in> set vs" for item
    proof -
      from that L have "fst item \<in> {''1.0'', ''1.1'', ''1.2'', ''1.3''}" by blast
      then show ?thesis by (auto simp: K_def key_examples)
    qed
    have unp: "filter (\<lambda>item. \<not> pinned (snd item)) vs = vs" using u by simp
    have ne: "vs \<noteq> []"
    proof
      assume "vs = []"
      with L show False by simp
    qed
    let ?s = "sort_key (\<lambda>item. K (fst item)) vs"
    have sort: "py_sort (\<lambda>item. version_key (fst item)) vs = Inr ?s"
      by (rule py_sort_total) (rule key)
    have "sorted (map (\<lambda>item. K (fst item)) ?s)" by (rule sorted_sort_key)
    then have 1: "sorted (map K (map fst ?s))" by (simp add: comp_def)
    have 2: "distinct (map fst ?s)" using d by (simp add: distinct_map)
    have 3: "set (map fst ?s) = set ?ms" using L by simp
    have 4: "sorted (map K ?ms)" and 5: "distinct ?ms" and 6: "inj_on K (set ?ms)"
      by (simp_all add: K)
    have labels: "map fst ?s = ?ms"
      by (rule sorted_by_key_unique [OF 1 2 3 4 5 6])
    have len: "length vs = 4" using arg_cong [OF labels, of length] by simp
    have init: "(if (2::int) < int (length ?s) then slice_to_minus 2 ?s else []) = take 2 ?s"
      by (simp add: len slice_to_minus_def)
    have aged: "foldl (add_aged now max_age) (take 2 ?s) ?s = take 2 ?s"
      by (rule add_aged_none) (use u in simp)
    have res: "cleanup_select now 2 max_age vs = Inr (take 2 ?s)"
      unfolding cleanup_select_def Let_def unp sort using ne by (simp only: init aged if_False sum.case)
    have "fst ` set (take 2 ?s) = set (take 2 (map fst ?s))" by (simp add: take_map)
    also have "\<dots> = {''1.0'', ''1.1''}" unfolding labels by (simp add: numeral_2_eq_2)
    finally show ?thesis using res by blast
  qed
  have pinned_kept: "v \<notin> fst ` set dels'"
    if d: "distinct (map fst ws)" and m: "map_of ws v = Some e" and p: "pinned e"
      and c: "cleanup_select now' max_versions max_age' ws = Inr dels'"
  proof
    assume "v \<in> fst ` set dels'"
    then obtain e' where "(v, e') \<in> set dels'" by auto
    with cleanup_select_unpinned [OF c] have "(v, e') \<in> set ws" and "\<not> pinned e'" by auto
    with d have "map_of ws v = Some e'" by simp
    with m p \<open>\<not> pinned e'\<close> show False by simp
  qed
  from retention pinned_kept show ?thesis by blast
qed

theorem cleanup_select_retention_witness:
  "(\<exists>dels. cleanup_select (stamp 2025 6) 2 6 four_unpinned = Inr dels \<and> fst ` set dels = {''1.0'', ''1.1''})
   \<and> map_of one_pinned ''1.0'' = Some (entry_of True (stamp 2020 1))
   \<and> pinned (entry_of True (stamp 2020 1))
   \<and> cleanup_select (stamp 2025 6) 2 6 one_pinned = Inr [(''1.1'', entry_of False (stamp 2025 3))]
   \<and> ''1.0'' \<notin> fst ` set [(''1.1'', entry_of False (stamp 2025 3))]"
proof -
  have a: "distinct (map fst four_unpinned)"
    and b: "fst ` set four_unpinned = {''1.0'', ''1.1'', ''1.2'', ''1.3''}"
    and c: "\<forall>item\<in>set four_unpinned.
              \<not> pinned (snd item) \<and> age_months (stamp 2025 6) (timestamp (snd item)) \<le> 6"
    by (simp_all add: four_unpinned_def entry_of_def stamp_def age_months_def insert_commute)
  have d: "distinct (map fst one_pinned)"
    and e: "map_of one_pinned ''1.0'' = Some (entry_of True (stamp 2020 1))"
    and f: "pinned (entry_of True (stamp 2020 1))"
    by (simp_all add: one_pinned_def entry_of_def)
  have g: "cleanup_select (stamp 2025 6) 2 6 one_pinned = Inr [(''1.1'', entry_of False (stamp 2025 3))]"
    by (simp add: cleanup_select_def one_pinned_def entry_of_def py_sort_def key_examples
          slice_to_minus_def add_aged_def age_months_def stamp_def)
  from cleanup_select_retention
         [of four_unpinned "stamp 2025 6" 6 one_pinned "''1.0''" "entry_of True (stamp 2020 1)"
             "stamp 2025 6" 2 6 "[(''1.1'', entry_of False (stamp 2025 3))]"]
       a b c d e f g
  show ?thesis by blast
qed

text \<open>
  C6: \<open>parse_version_safe\<close> is to return a key for every string, and its docstring and
  the comment on its fallback say so too. For \<open>-1\<close> it raises: the strict parse fails,
  the fallback reads the part with \<open>int\<close>, which accepts a sign, builds \<open>-1.0.0\<close>, and
  calls \<open>Version\<close> on it inside the handler, where \<open>InvalidVersion\<close> is no longer caught.
  The second half of the claim holds: the latest of 1.2.3, 1.10.0 and 1.2.40.592 is
  1.10.0, in whatever order the directory lists them.
\<close>

theorem parse_version_safe_not_total:
  "Version ''-1'' = Inl InvalidVersion
   \<and> int_parts (split_on CHR ''.'' ''-1'') = [- 1]
   \<and> fallback_str ''-1'' = ''-1.0.0''
   \<and> Version ''-1.0.0'' = Inl InvalidVersion
   \<and> parse_version_safe ''-1'' = Inl InvalidVersion
   \<and> latest_version [''1.2.3'', ''1.10.0'', ''1.2.40.592''] = Inr (Some ''1.10.0'')
   \<and> latest_version [''1.2.3'', ''1.2.40.592'', ''1.10.0''] = Inr (Some ''1.10.0'')
   \<and> latest_version [''1.10.0'', ''1.2.3'', ''1.2.40.592''] = Inr (Some ''1.10.0'')
   \<and> latest_version [''1.10.0'', ''1.2.40.592'', ''1.2.3''] = Inr (Some ''1.10.0'')
   \<and> latest_version [''1.2.40.592'', ''1.2.3'', ''1.10.0''] = Inr (Some ''1.10.0'')
   \<and> latest_version [''1.2.40.592'', ''1.10.0'', ''1.2.3''] = Inr (Some ''1.10.0'')"
proof -
  have "fallback_str ''-1'' = ''-1.0.0''"
    unfolding fallback_str_def int_parts_examples
    by (simp add: pad3_def py_str_examples numeral_2_eq_2)
  with Version_examples(1,2) int_parts_examples(1) parse_minus_one latest_of_three
  show ?thesis by simp
qed

text \<open>
  C7, as it is written: a manifest that is no installer manifest is copied byte for byte.
  No file is copied: each one is loaded with \<open>yaml.safe_load\<close> and written with
  \<open>yaml.dump\<close>. The locale manifest of the example starts with a comment, as the manifests
  of the repository do; the file that is written has lost it. And the base URL is used
  without the slashes at its end: the run with \<open>https://mirror.local/\<close> writes the same
  files, and the URL in them is not that base followed by \<open>/downloads/...\<close>.
\<close>

theorem patched_manifest_is_not_a_copy:
  "map_of bar_yamls ''Foo.Bar.locale.en-US.yaml'' =
     Some (lines_text [''# Created with YamlCreate.ps1'', ''PackageIdentifier: Foo.Bar'',
                       ''PackageName: Bar'', ''ManifestType: defaultLocale''])
   \<and> patch_repo (bar_world (Inl HTTPError)) default_config (mirror_state (bar_after True))
        (Some ''https://mirror.local'') None [] =
      Inr (1, [((''patched-manifests'', ''Foo'', ''Bar'', ''1.2.3''),
                [(''Foo.Bar.installer.yaml'', bar_installer_dump),
                 (''Foo.Bar.locale.en-US.yaml'',
                  lines_text [''PackageIdentifier: Foo.Bar'', ''PackageName: Bar'',
                              ''ManifestType: defaultLocale'']),
                 (''Foo.Bar.yaml'', bar_version_dump)])])
   \<and> lines_text [''# Created with YamlCreate.ps1'', ''PackageIdentifier: Foo.Bar'',
                  ''PackageName: Bar'', ''ManifestType: defaultLocale'']
       \<noteq> lines_text [''PackageIdentifier: Foo.Bar'', ''PackageName: Bar'', ''ManifestType: defaultLocale'']
   \<and> patch_repo (bar_world (Inl HTTPError)) default_config (mirror_state (bar_after True))
        (Some ''https://mirror.local/'') None [] =
      Inr (1, [((''patched-manifests'', ''Foo'', ''Bar'', ''1.2.3''),
                [(''Foo.Bar.installer.yaml'',
                  lines_text
                    [''PackageIdentifier: Foo.Bar'',
                     ''PackageVersion: 1.2.3'',
                     ''Installers:'',
                     ''- Architecture: x64'',
                     ''  InstallerUrl: https://mirror.local/downloads/Foo/Bar/1.2.3/Bar-1.2.3.exe'',
                     ''  InstallerSha256: 0F0F'',
                     ''  InstallerType: exe'',
                     ''ManifestType: installer'']),
                 (''Foo.Bar.locale.en-US.yaml'', bar_locale_dump),
                 (''Foo.Bar.yaml'', bar_version_dump)])])
   \<and> ''https://mirror.local/'' @ ''/downloads/Foo/Bar/1.2.3/Bar-1.2.3.exe''
       \<noteq> ''https://mirror.local/downloads/Foo/Bar/1.2.3/Bar-1.2.3.exe''"
proof -
  have "map_of bar_yamls ''Foo.Bar.locale.en-US.yaml'' =
     Some (lines_text [''# Created with YamlCreate.ps1'', ''PackageIdentifier: Foo.Bar'',
                       ''PackageName: Bar'', ''ManifestType: defaultLocale''])"
    by (simp add: bar_yaml_files bar_locale_text_def)
  moreover have "lines_text [''# Created with YamlCreate.ps1'', ''PackageIdentifier: Foo.Bar'',
                  ''PackageName: Bar'', ''ManifestType: defaultLocale'']
       \<noteq> lines_text [''PackageIdentifier: Foo.Bar'', ''PackageName: Bar'', ''ManifestType: defaultLocale'']"
    by (simp add: lines_text_def)
  moreover have "''https://mirror.local/'' @ ''/downloads/Foo/Bar/1.2.3/Bar-1.2.3.exe''
       \<noteq> ''https://mirror.local/downloads/Foo/Bar/1.2.3/Bar-1.2.3.exe''"
    by simp
  ultimately show ?thesis
    using bar_patch_repo [OF mirror_local(1), of "Inl HTTPError"]
      bar_patch_repo [OF mirror_local(2), of "Inl HTTPError"]
    by (simp add: bar_locale_dump_def bar_installer_dump_def)
qed

text \<open>
  C7, amended: a run of \<open>patch_repo\<close> that returns, with a server URL and an output
  directory, has written, for every version recorded in the state and every \<open>*.yaml\<close> file
  of the version's directory in the repository, a file of the same name in the version's
  directory of the output. The file holds what \<open>yaml.dump\<close> writes for the mapping that
  \<open>yaml.safe_load\<close> read, unchanged when the manifest is no installer manifest; in an
  installer manifest every entry of \<open>Installers\<close> that has an \<open>InstallerUrl\<close> has got the URL
  made of the base URL without the slashes at its end, \<open>/downloads/\<close>, the publisher, the
  package, the version and the file name of the old URL, and nothing else has changed.
  In the example of the specification the new URL is
  \<open>https://mirror.local/downloads/Foo/Bar/1.2.3/Bar-1.2.3.exe\<close>.
\<close>

theorem patch_repo_writes_every_manifest:
  "(patch_repo w cfg st server_arg dir_arg out_tree = Inr (n, out')
      \<and> py_or server_arg (server_url cfg) = Some s \<and> s \<noteq> []
      \<and> py_or dir_arg (patch_dir cfg) = Some out \<and> out \<noteq> []
      \<and> downloads st = Some d \<and> (pid, info) \<in> set d \<and> (v, e) \<in> set (versions info)
      \<and> split1 CHR ''.'' pid = Some (pu, pk)
      \<and> source_manifest_dir w pu pk v = Some yamls \<and> distinct (map fst yamls)
      \<and> (name, content) \<in> set yamls
    \<longrightarrow> (\<exists>fs m. map_of out' (out, pu, pk, v) = Some fs
           \<and> yaml_load w content = Some (Mapping m)
           \<and> map_of fs name =
               Some (yaml_dump w
                 (if ManifestType m = Some ''installer''
                  then m\<lparr>Installers :=
                           map_option
                             (map (\<lambda>inst. inst\<lparr>InstallerUrl :=
                                     map_option
                                       (\<lambda>url. rstrip_slash s @ ''/downloads/'' @ pu @ ''/'' @ pk @ ''/'' @ v
                                               @ ''/'' @ path_name url)
                                       (InstallerUrl inst)\<rparr>))
                             (Installers m)\<rparr>
                  else m))))
   \<and> patch_repo (bar_world r) default_config (mirror_state (bar_after True))
        (Some ''https://mirror.local'') None [] =
      Inr (1, [((''patched-manifests'', ''Foo'', ''Bar'', ''1.2.3''),
                [(''Foo.Bar.installer.yaml'', bar_installer_dump),
                 (''Foo.Bar.locale.en-US.yaml'', bar_locale_dump),
                 (''Foo.Bar.yaml'', bar_version_dump)])])
   \<and> bar_installer_dump =
       lines_text
         [''PackageIdentifier: Foo.Bar'',
          ''PackageVersion: 1.2.3'',
          ''Installers:'',
          ''- Architecture: x64'',
          ''  InstallerUrl: https://mirror.local/downloads/Foo/Bar/1.2.3/Bar-1.2.3.exe'',
          ''  InstallerSha256: 0F0F'',
          ''  InstallerType: exe'',
          ''ManifestType: installer'']"
proof -
  have general: "\<exists>fs m. map_of out' (out, pu, pk, v) = Some fs
           \<and> yaml_load w content = Some (Mapping m)
           \<and> map_of fs name = Some (yaml_dump w (patch_manifest s pu pk v m))"
    if run: "patch_repo w cfg st server_arg dir_arg out_tree = Inr (n, out')"
      and s: "py_or server_arg (server_url cfg) = Some s" "s \<noteq> []"
      and out: "py_or dir_arg (patch_dir cfg) = Some out" "out \<noteq> []"
      and d: "downloads st = Some d" "(pid, info) \<in> set d" and v: "(v, e) \<in> set (versions info)"
      and split: "split1 CHR ''.'' pid = Some (pu, pk)"
      and src: "source_manifest_dir w pu pk v = Some yamls" and dist: "distinct (map fst yamls)"
      and f: "(name, content) \<in> set yamls"
  proof -
    define P where "P = (\<lambda>x. \<exists>fs m. x = Some fs \<and> yaml_load w content = Some (Mapping m)
                            \<and> map_of fs name = Some (yaml_dump w (patch_manifest s pu pk v m)))"
    from d(2) have "d \<noteq> []" by auto
    with run s out d(1) have pp: "patch_packages w s out d (0, out_tree) = Inr (n, out')"
      by (simp add: patch_repo_def)
    from v have vin: "v \<in> fst ` set (versions info)" by force
    have "P (Some fs)" if "patch_files w s pu pk v yamls target = Inr fs" for target fs
      using patch_files_written [OF that dist f] by (simp add: P_def)
    from patch_packages_establishes [where P = P, OF pp d(2) split vin src this]
    have "P (map_of out' (out, pu, pk, v))" by simp
    then show ?thesis by (simp add: P_def)
  qed
  have "bar_installer_dump =
       lines_text
         [''PackageIdentifier: Foo.Bar'',
          ''PackageVersion: 1.2.3'',
          ''Installers:'',
          ''- Architecture: x64'',
          ''  InstallerUrl: https://mirror.local/downloads/Foo/Bar/1.2.3/Bar-1.2.3.exe'',
          ''  InstallerSha256: 0F0F'',
          ''  InstallerType: exe'',
          ''ManifestType: installer'']"
    by (simp only: bar_installer_dump_def)
  with general [unfolded patch_manifest_explicit] bar_patch_repo [OF mirror_local(1), of r]
  show ?thesis by blast
qed

theorem patch_repo_writes_every_manifest_witness:
  "patch_repo (bar_world (Inl HTTPError)) default_config (mirror_state (bar_after True))
        (Some ''https://mirror.local'') None [] =
      Inr (1, [((''patched-manifests'', ''Foo'', ''Bar'', ''1.2.3''),
                [(''Foo.Bar.installer.yaml'', bar_installer_dump),
                 (''Foo.Bar.locale.en-US.yaml'', bar_locale_dump),
                 (''Foo.Bar.yaml'', bar_version_dump)])])
   \<and> py_or (Some ''https://mirror.local'') (server_url default_config) = Some ''https://mirror.local''
   \<and> py_or None (patch_dir default_config) = Some ''patched-manifests''
   \<and> downloads (mirror_state (bar_after True)) = Some (bar_after True)
   \<and> split1 CHR ''.'' ''Foo.Bar'' = Some (''Foo'', ''Bar'')
   \<and> source_manifest_dir (bar_world (Inl HTTPError)) ''Foo'' ''Bar'' ''1.2.3'' = Some bar_yamls
   \<and> distinct (map fst bar_yamls)
   \<and> map_of bar_yamls ''Foo.Bar.installer.yaml'' = Some bar_installer_text
   \<and> yaml_load (bar_world (Inl HTTPError)) bar_installer_text = Some (Mapping bar_installer_manifest)
   \<and> map_of [(''Foo.Bar.installer.yaml'', bar_installer_dump),
              (''Foo.Bar.locale.en-US.yaml'', bar_locale_dump),
              (''Foo.Bar.yaml'', bar_version_dump)] ''Foo.Bar.installer.yaml'' =
       Some (yaml_dump (bar_world (Inl HTTPError))
              (bar_installer_manifest\<lparr>Installers := Some [bar_installer_patched]\<rparr>))"
proof -
  let ?w = "bar_world (Inl HTTPError)"
  let ?e = "\<lparr>git_rev = ''0a1b2c'', files = [(''Bar-1.2.3.exe'', ''sha256 of setup'')],
             timestamp = stamp 2025 6, pinned = True\<rparr>"
  let ?info = "\<lparr>versions = [(''1.2.3'', ?e)], package_timestamp = Some (stamp 2025 6)\<rparr>"
  note run = bar_patch_repo [OF mirror_local(1), of "Inl HTTPError"]
  have s: "py_or (Some ''https://mirror.local'') (server_url default_config) = Some ''https://mirror.local''"
    and o: "py_or None (patch_dir default_config) = Some ''patched-manifests''"
    by (simp_all add: py_or_def truthy_def default_config_def)
  have d: "downloads (mirror_state (bar_after True)) = Some (bar_after True)"
    by (simp add: mirror_state_def)
  have p: "(''Foo.Bar'', ?info) \<in> set (bar_after True)" and v: "(''1.2.3'', ?e) \<in> set (versions ?info)"
    by (simp_all add: bar_after_def)
  have dist: "distinct (map fst bar_yamls)"
    and f: "(''Foo.Bar.installer.yaml'', bar_installer_text) \<in> set bar_yamls"
    by (simp_all add: bar_yamls_def)
  have l: "yaml_load ?w bar_installer_text = Some (Mapping bar_installer_manifest)"
    by (simp add: bar_world_fields bar_load_files)
  have t: "ManifestType bar_installer_manifest = Some ''installer''"
    by (simp add: bar_installer_manifest_def)
  have m: "bar_installer_manifest\<lparr>Installers :=
             map_option
               (map (\<lambda>inst. inst\<lparr>InstallerUrl :=
                       map_option
                         (\<lambda>url. rstrip_slash ''https://mirror.local'' @ ''/downloads/'' @ ''Foo'' @ ''/'' @ ''Bar''
                                 @ ''/'' @ ''1.2.3'' @ ''/'' @ path_name url)
                         (InstallerUrl inst)\<rparr>))
               (Installers bar_installer_manifest)\<rparr>
           = bar_installer_manifest\<lparr>Installers := Some [bar_installer_patched]\<rparr>"
    using bar_patch_manifest(1) [OF mirror_local(1)]
    by (simp add: patch_manifest_explicit t)
  from patch_repo_writes_every_manifest
         [where w = ?w and cfg = default_config and st = "mirror_state (bar_after True)"
            and server_arg = "Some ''https://mirror.local''" and dir_arg = None and out_tree = "[]"
            and n = 1 and s = "''https://mirror.local''" and out = "''patched-manifests''"
            and d = "bar_after True" and pid = "''Foo.Bar''" and info = ?info and v = "''1.2.3''"
            and e = ?e and pu = "''Foo''" and pk = "''Bar''" and yamls = bar_yamls
            and name = "''Foo.Bar.installer.yaml''" and content = bar_installer_text]
    run s o d p v bar_split bar_source [of "Inl HTTPError"] dist f
  have "\<exists>fs m. map_of [((''patched-manifests'', ''Foo'', ''Bar'', ''1.2.3''),
                [(''Foo.Bar.installer.yaml'', bar_installer_dump),
                 (''Foo.Bar.locale.en-US.yaml'', bar_locale_dump),
                 (''Foo.Bar.yaml'', bar_version_dump)])] (''patched-manifests'', ''Foo'', ''Bar'', ''1.2.3'') = Some fs
           \<and> yaml_load ?w bar_installer_text = Some (Mapping m)
           \<and> map_of fs ''Foo.Bar.installer.yaml'' =
               Some (yaml_dump ?w
                 (if ManifestType m = Some ''installer''
                  then m\<lparr>Installers :=
                           map_option
                             (map (\<lambda>inst. inst\<lparr>InstallerUrl :=
                                     map_option
                                       (\<lambda>url. rstrip_slash ''https://mirror.local'' @ ''/downloads/'' @ ''Foo''
                                               @ ''/'' @ ''Bar'' @ ''/'' @ ''1.2.3'' @ ''/'' @ path_name url)
                                       (InstallerUrl inst)\<rparr>))
                             (Installers m)\<rparr>
                  else m))"
    by blast
  then have "map_of [(''Foo.Bar.installer.yaml'', bar_installer_dump),
              (''Foo.Bar.locale.en-US.yaml'', bar_locale_dump),
              (''Foo.Bar.yaml'', bar_version_dump)] ''Foo.Bar.installer.yaml'' =
       Some (yaml_dump ?w (bar_installer_manifest\<lparr>Installers := Some [bar_installer_patched]\<rparr>))"
    unfolding l using t m by auto
  with run s o d bar_split bar_source [of "Inl HTTPError"] dist l show ?thesis
    by (simp add: bar_yaml_files)
qed

text \<open>
  C8, as it is written: a version with no recorded file and a directory that is not empty
  is reported with the content of the directory as unexpected files. The code leaves the
  version before it looks at the directory: with \<open>Bar-1.2.3.exe\<close> on disk and no file
  recorded, nothing is unexpected.
\<close>

theorem validate_hashes_empty_entry_ignores_directory:
  "entry_files bar_recorded ''Foo.Bar'' ''1.2.3'' = []
   \<and> map_of bar_tree (''Foo'', ''Bar'', ''1.2.3'') = Some [(''Bar-1.2.3.exe'', ''setup'')]
   \<and> validate_hashes (sha256 (bar_world (Inr (Complete ''setup'')))) bar_tree (mirror_state bar_recorded) bar_package =
       \<lparr>valid = True, error = None,
        version_reports =
          [(''1.2.3'', \<lparr>version_valid = True, file_results = [], missing_files = [],
                         unexpected_files = {}\<rparr>)]\<rparr>"
  by (simp add: validate_hashes_def validate_version_def mirror_state_def bar_recorded_def
        bar_package_def bar_tree_def bar_dir_def entry_of_def entry_files_def get_entry_def)

text \<open>
  C8, amended: a version whose entry records no file is reported as valid, with no file
  result, no missing file and no unexpected file, whether its directory exists or not and
  whatever the directory holds.
\<close>

theorem validate_hashes_empty_entry:
  "map_of d (package_id p) = Some info \<Longrightarrow> map_of (versions info) version = Some vdata \<Longrightarrow>
   files vdata = [] \<Longrightarrow>
   map_of (version_reports (validate_hashes h tree \<lparr>path = root, last_sync = t, downloads = Some d\<rparr> p))
     version =
   Some \<lparr>version_valid = True, file_results = [], missing_files = [], unexpected_files = {}\<rparr>"
  by (simp add: validate_hashes_def Let_def map_of_map_values validate_version_def)

theorem validate_hashes_empty_entry_witness:
  "map_of bar_recorded (package_id bar_package) =
     Some \<lparr>versions = [(''1.2.3'', entry_of False (stamp 2025 1))], package_timestamp = None\<rparr>
   \<and> map_of [(''1.2.3'', entry_of False (stamp 2025 1))] ''1.2.3'' = Some (entry_of False (stamp 2025 1))
   \<and> files (entry_of False (stamp 2025 1)) = []
   \<and> map_of (version_reports (validate_hashes (sha256 (bar_world (Inr (Complete ''setup'')))) bar_tree
         \<lparr>path = ''/srv/mirror'', last_sync = None, downloads = Some bar_recorded\<rparr> bar_package))
        ''1.2.3'' =
      Some \<lparr>version_valid = True, file_results = [], missing_files = [], unexpected_files = {}\<rparr>"
proof -
  have a: "map_of bar_recorded (package_id bar_package) =
     Some \<lparr>versions = [(''1.2.3'', entry_of False (stamp 2025 1))], package_timestamp = None\<rparr>"
    by (simp add: bar_recorded_def bar_package_def)
  have b: "map_of (versions \<lparr>versions = [(''1.2.3'', entry_of False (stamp 2025 1))], package_timestamp = None\<rparr>)
             ''1.2.3'' = Some (entry_of False (stamp 2025 1))"
    by simp
  have c: "files (entry_of False (stamp 2025 1)) = []"
    by (simp add: entry_of_def)
  from validate_hashes_empty_entry [OF a b c, of "sha256 (bar_world (Inr (Complete ''setup'')))" bar_tree "''/srv/mirror''" None] a c
  show ?thesis by simp
qed



text \<open>
  C10: for a package that is not in the \<open>downloads\<close> of the state, \<open>validate_hashes\<close>
  returns a report that is not valid and carries an error, not an empty valid report.
\<close>

theorem validate_hashes_not_in_state:
  "map_of (case downloads st of None \<Rightarrow> [] | Some d \<Rightarrow> d) (package_id p) = None \<Longrightarrow>
   validate_hashes h tree st p =
   \<lparr>valid = False, error = Some ''Package not in state'', version_reports = []\<rparr>"
  by (simp add: validate_hashes_def)

theorem validate_hashes_not_in_state_witness:
  "map_of (case downloads (mirror_state bar_pinned) of None \<Rightarrow> [] | Some d \<Rightarrow> d) (package_id baz_package) = None
   \<and> validate_hashes (sha256 (bar_world (Inr (Complete ''setup'')))) bar_tree (mirror_state bar_pinned) baz_package =
       \<lparr>valid = False, error = Some ''Package not in state'', version_reports = []\<rparr>"
proof -
  have a: "map_of (case downloads (mirror_state bar_pinned) of None \<Rightarrow> [] | Some d \<Rightarrow> d)
             (package_id baz_package) = None"
    by (simp add: mirror_state_def bar_pinned_def baz_package_def)
  from validate_hashes_not_in_state [OF a, of "sha256 (bar_world (Inr (Complete ''setup'')))" bar_tree] a show ?thesis by simp
qed

end
